theory Spec2Isabelle
  imports Complex_Main "HOL-Library.List_Lexorder" "HOL-Library.Char_ord"
begin

section \<open>JavaScript values\<close>

text \<open>
  The inventory server (\<^verbatim>\<open>src/server.js\<close>) keeps one JSON document in the file
  \<^verbatim>\<open>data.json\<close>. Its values are JSON values, extended in memory by \<^verbatim>\<open>undefined\<close>
  (the result of reading a property an object does not have) and by \<^verbatim>\<open>NaN\<close> (a possible
  result of \<^verbatim>\<open>Number(...)\<close>). A number is a rational, an infinity (\<^verbatim>\<open>JSON.parse\<close> reads
  \<^verbatim>\<open>1e400\<close> as \<^verbatim>\<open>Infinity\<close>) or \<^verbatim>\<open>NaN\<close>: the server performs no arithmetic, so only the
  identity, the truthiness and the printing of a number matter; the sign of zero, which
  none of the three tells apart, is left out. An object is the list of its properties in
  insertion order.
\<close>

datatype jsnum = Fin rat | PInf | NInf | NaN

text \<open>The one exception the handlers can raise on a document of the expected shape.\<close>

datatype error = TypeError

datatype jsval =
    JUndefined
  | JNull
  | JBool bool
  | JNum jsnum
  | JStr string
  | JArr "jsval list"
  | JObj "(string \<times> jsval) list"

type_synonym obj = "(string \<times> jsval) list"

text \<open>\<^verbatim>\<open>o[k]\<close>: the value of property \<open>k\<close>, \<^verbatim>\<open>undefined\<close> when \<open>o\<close> has none.\<close>

fun get_prop :: "obj \<Rightarrow> string \<Rightarrow> jsval" where
  "get_prop [] k = JUndefined"
| "get_prop ((k', v) # ps) k = (if k' = k then v else get_prop ps k)"

text \<open>\<^verbatim>\<open>o[k] = v\<close>: an existing property keeps its place, a new one goes last.\<close>

fun set_prop :: "obj \<Rightarrow> string \<Rightarrow> jsval \<Rightarrow> obj" where
  "set_prop [] k v = [(k, v)]"
| "set_prop ((k', v') # ps) k v = (if k' = k then (k, v) # ps else (k', v') # set_prop ps k v)"

text \<open>\<^verbatim>\<open>k in o\<close>.\<close>

definition has_prop :: "obj \<Rightarrow> string \<Rightarrow> bool" where
  "has_prop ob k = (k \<in> set (map fst ob))"

text \<open>\<^verbatim>\<open>Object.assign(target, source)\<close>: for every key of the source, in the source's
  order, \<^verbatim>\<open>target[key] = source[key]\<close>.\<close>

definition Object_assign :: "obj \<Rightarrow> obj \<Rightarrow> obj" where
  "Object_assign target source =
     foldl (\<lambda>t k. set_prop t k (get_prop source k)) target (map fst source)"

text \<open>Truthiness, as \<^verbatim>\<open>!v\<close> and \<^verbatim>\<open>if (v)\<close> test it.\<close>

fun truthy :: "jsval \<Rightarrow> bool" where
  "truthy JUndefined = False"
| "truthy JNull = False"
| "truthy (JBool b) = b"
| "truthy (JNum NaN) = False"
| "truthy (JNum (Fin r)) = (r \<noteq> 0)"
| "truthy (JNum PInf) = True"
| "truthy (JNum NInf) = True"
| "truthy (JStr s) = (s \<noteq> [])"
| "truthy (JArr xs) = True"
| "truthy (JObj ps) = True"

text \<open>
  \<^verbatim>\<open>a === b\<close> where \<open>a\<close> is read from the loaded document and \<open>b\<close> comes from the
  request: primitives are compared by value (\<^verbatim>\<open>NaN\<close> equals nothing), and an array or an
  object is never equal to one allocated elsewhere.
\<close>

fun strict_eq :: "jsval \<Rightarrow> jsval \<Rightarrow> bool" where
  "strict_eq JUndefined JUndefined = True"
| "strict_eq JNull JNull = True"
| "strict_eq (JBool a) (JBool b) = (a = b)"
| "strict_eq (JNum a) (JNum b) = (a \<noteq> NaN \<and> a = b)"
| "strict_eq (JStr a) (JStr b) = (a = b)"
| "strict_eq a b = False"

text \<open>
  \<^verbatim>\<open>Number(v)\<close>. The conversion of a string follows the numeric string grammar of the
  language and always yields a number. The conversion of an array or an object goes
  through its string form and raises \<^verbatim>\<open>TypeError\<close> when there is none (as for
  \<^verbatim>\<open>{"toString": 1}\<close>). Neither is code of the server: they are the two fields of the
  parameter \<open>conv\<close>, and every result below holds for any \<open>conv\<close>.
\<close>

record conversions =
  StringToNumber :: "string \<Rightarrow> jsnum"
  ObjectToNumber :: "jsval \<Rightarrow> error + jsnum"

fun Number_js :: "conversions \<Rightarrow> jsval \<Rightarrow> error + jsnum" where
  "Number_js conv JUndefined = Inr NaN"
| "Number_js conv JNull = Inr (Fin 0)"
| "Number_js conv (JBool b) = Inr (Fin (if b then 1 else 0))"
| "Number_js conv (JNum n) = Inr n"
| "Number_js conv (JStr s) = Inr (StringToNumber conv s)"
| "Number_js conv v = ObjectToNumber conv v"

text \<open>
  What \<^verbatim>\<open>JSON.parse(JSON.stringify(v))\<close> makes of a value: \<^verbatim>\<open>undefined\<close>,
  \<^verbatim>\<open>NaN\<close> and the infinities are written as \<^verbatim>\<open>null\<close>, and a property whose value is
  \<^verbatim>\<open>undefined\<close> is not written at all.
\<close>

fun jsonify :: "jsval \<Rightarrow> jsval" where
  "jsonify JUndefined = JNull"
| "jsonify JNull = JNull"
| "jsonify (JBool b) = JBool b"
| "jsonify (JNum NaN) = JNull"
| "jsonify (JNum PInf) = JNull"
| "jsonify (JNum NInf) = JNull"
| "jsonify (JNum (Fin r)) = JNum (Fin r)"
| "jsonify (JStr s) = JStr s"
| "jsonify (JArr xs) = JArr (map jsonify xs)"
| "jsonify (JObj ps) =
     JObj (map (\<lambda>(k, v). (k, jsonify v)) (filter (\<lambda>(k, v). v \<noteq> JUndefined) ps))"

definition jsonify_obj :: "obj \<Rightarrow> obj" where
  "jsonify_obj ps = map (\<lambda>(k, v). (k, jsonify v)) (filter (\<lambda>(k, v). v \<noteq> JUndefined) ps)"

text \<open>The same for the value of one property: an \<^verbatim>\<open>undefined\<close> property is dropped, so it
  reads as \<^verbatim>\<open>undefined\<close> again.\<close>

definition jsonify_prop :: "jsval \<Rightarrow> jsval" where
  "jsonify_prop v = (if v = JUndefined then JUndefined else jsonify v)"

text \<open>The decimal numeral of an integer, as string concatenation prints \<^verbatim>\<open>Date.now()\<close>.\<close>

fun digits :: "nat \<Rightarrow> string" where
  "digits n = (if n < 10 then [''0123456789'' ! n]
     else digits (n div 10) @ [''0123456789'' ! (n mod 10)])"

declare digits.simps [simp del]

definition number_to_string :: "int \<Rightarrow> string" where
  "number_to_string i = (if i < 0 then ''-'' @ digits (nat (- i)) else digits (nat i))"

section \<open>The document, in the file and in memory\<close>

text \<open>
  An audit entry has the seven properties the handlers give it. The document has four
  collections. Both are parametric in how an item object is held: by value (\<open>obj\<close>) in the
  file, by reference (an address of the heap) in memory. A document in the file is taken
  to have this shape: the three collections are arrays, every item is an object, and every
  audit entry has the seven properties. The mutating handlers read no property of an
  audit entry, of a user or of \<^verbatim>\<open>app_meta\<close>.
\<close>

datatype 'r audit_entry = AuditEntry
  (audit_id: string)
  (item_id: jsval)
  (operation: string)
  (changed_by: string)
  (changed_at: string)
  (diff: jsval)
  (full_record: 'r)

record 'r document =
  users :: "jsval list"
  inventory_items :: "'r list"
  inventory_audit :: "'r audit_entry list"
  app_meta :: jsval

text \<open>
  In memory the item objects live in a heap and the document holds their addresses, so
  that an assignment to a property of an item is seen through every reference to it.
  Nested values (a \<^verbatim>\<open>metadata\<close> object, say) are never assigned into and are held by value.
\<close>

record mem =
  heap :: "obj list"
  db :: "nat document"

text \<open>
  \<^verbatim>\<open>JSON.parse\<close> of the text of a document builds a tree: every item and every
  \<^verbatim>\<open>full_record\<close> is an object of its own.
\<close>

definition JSON_parse :: "obj document \<Rightarrow> mem" where
  "JSON_parse d =
     (let n = length (inventory_items d) in
      \<lparr>heap = inventory_items d @ map full_record (inventory_audit d),
       db = \<lparr>users = users d,
             inventory_items = [0..<n],
             inventory_audit =
               map (\<lambda>i. map_audit_entry (\<lambda>_. n + i) (inventory_audit d ! i))
                 [0..<length (inventory_audit d)],
             app_meta = app_meta d\<rparr>\<rparr>)"

text \<open>
  \<^verbatim>\<open>JSON.stringify\<close> follows every reference and writes the object found there; the
  result is given as the document that the written text denotes.
\<close>

definition jsonify_entry :: "obj audit_entry \<Rightarrow> obj audit_entry" where
  "jsonify_entry e =
     AuditEntry (audit_id e) (jsonify_prop (item_id e)) (operation e) (changed_by e)
       (changed_at e) (jsonify_prop (diff e)) (jsonify_obj (full_record e))"

definition JSON_stringify :: "mem \<Rightarrow> obj document" where
  "JSON_stringify m =
     \<lparr>users = map jsonify (users (db m)),
      inventory_items = map (\<lambda>a. jsonify_obj (heap m ! a)) (inventory_items (db m)),
      inventory_audit =
        map (\<lambda>e. jsonify_entry (map_audit_entry (\<lambda>a. heap m ! a) e)) (inventory_audit (db m)),
      app_meta = jsonify_prop (app_meta (db m))\<rparr>"

section \<open>The document store: \<^verbatim>\<open>loadDb\<close>, \<^verbatim>\<open>saveDb\<close>, \<^verbatim>\<open>withDb\<close>\<close>

text \<open>
  A file holds either a text that \<^verbatim>\<open>JSON.parse\<close> accepts, given by the document it
  denotes, or a text that \<^verbatim>\<open>JSON.parse\<close> rejects. The file system maps names to files.
\<close>

datatype contents = Json_text "obj document" | Unparsable string

type_synonym filesystem = "string \<Rightarrow> contents option"

definition DB_FILE :: string where
  "DB_FILE = ''data.json''"

definition empty_db :: "'r document" where
  "empty_db = \<lparr>users = [], inventory_items = [], inventory_audit = [], app_meta = JObj []\<rparr>"

definition renameSync :: "string \<Rightarrow> string \<Rightarrow> filesystem \<Rightarrow> filesystem" where
  "renameSync old new fs = (fs(old := None))(new := fs old)"

text \<open>
  \<^verbatim>\<open>loadDb()\<close>; \<open>now\<close> is what \<^verbatim>\<open>Date.now()\<close> returns in the \<^verbatim>\<open>catch\<close> branch.
\<close>

definition loadDb :: "int \<Rightarrow> filesystem \<Rightarrow> mem \<times> filesystem" where
  "loadDb now fs =
     (case fs DB_FILE of
        None \<Rightarrow> (\<lparr>heap = [], db = empty_db\<rparr>, fs)
      | Some (Json_text d) \<Rightarrow> (JSON_parse d, fs)
      | Some (Unparsable t) \<Rightarrow>
          (\<lparr>heap = [], db = empty_db\<rparr>,
           renameSync DB_FILE (DB_FILE @ ''.corrupt.'' @ number_to_string now) fs))"

definition saveDb :: "mem \<Rightarrow> filesystem \<Rightarrow> filesystem" where
  "saveDb m fs = fs(DB_FILE \<mapsto> Json_text (JSON_stringify m))"

text \<open>
  \<^verbatim>\<open>withDb(fn)\<close>, run with the lock free: load, call \<open>fn\<close> on the loaded document, save,
  return what \<open>fn\<close> returned. When \<open>fn\<close> throws, \<^verbatim>\<open>saveDb\<close> is skipped and the exception
  goes on to the caller; what \<^verbatim>\<open>loadDb\<close> did to the file system stays. The result may hold
  a reference to an item, so the memory it points into is returned with it.
\<close>

definition withDb ::
  "(mem \<Rightarrow> error + 'a \<times> mem) \<Rightarrow> int \<Rightarrow> filesystem \<Rightarrow> (error + 'a \<times> mem) \<times> filesystem" where
  "withDb fn now fs =
     (let (m, fs1) = loadDb now fs
      in case fn m of
           Inl err \<Rightarrow> (Inl err, fs1)
         | Inr (r, m') \<Rightarrow> (Inr (r, m'), saveDb m' fs1))"

text \<open>A transaction function that does not throw.\<close>

definition returning :: "(mem \<Rightarrow> 'a \<times> mem) \<Rightarrow> mem \<Rightarrow> error + 'a \<times> mem" where
  "returning fn m = Inr (fn m)"

section \<open>The mutating handlers\<close>

text \<open>
  The clock and the random generator are inputs. Every request comes with the values it
  will read from them, one field for each call in the source:
  \<^verbatim>\<open>randomUUID()\<close> for the identifier of a new item and for that of the audit entry,
  \<^verbatim>\<open>new Date().toISOString()\<close> for \<^verbatim>\<open>created_at\<close>, \<^verbatim>\<open>updated_at\<close>, \<^verbatim>\<open>deleted_at\<close> and
  \<^verbatim>\<open>changed_at\<close>, and \<^verbatim>\<open>Date.now()\<close> for the name of a quarantined file.
\<close>

record env =
  uuid_item :: string
  uuid_audit :: string
  iso_created :: string
  iso_updated :: string
  iso_deleted :: string
  iso_changed :: string
  ms_now :: int

text \<open>
  What a transaction function returns: a status and a body, the body being a literal
  value or a reference to an item. \<^verbatim>\<open>res.status(s).json(b)\<close> then sends the text of the
  body, following the reference. A handler whose transaction throws sends nothing: its
  outcome is the exception.
\<close>

datatype payload = Ref nat | Lit jsval

datatype response = Response (status: nat) (body: jsval)

definition send :: "(nat \<times> payload) \<times> mem \<Rightarrow> response" where
  "send r =
     (case r of ((st, b), m) \<Rightarrow>
        Response st (case b of Ref a \<Rightarrow> jsonify (JObj (heap m ! a)) | Lit v \<Rightarrow> jsonify v))"

definition respond :: "(error + (nat \<times> payload) \<times> mem) \<times> filesystem \<Rightarrow> (error + response) \<times> filesystem" where
  "respond x =
     (case x of (Inl err, fs') \<Rightarrow> (Inl err, fs') | (Inr r, fs') \<Rightarrow> (Inr (send r), fs'))"

text \<open>The status a handler answered with, if it answered.\<close>

fun status_of :: "error + response \<Rightarrow> nat option" where
  "status_of (Inl err) = None"
| "status_of (Inr r) = Some (status r)"

definition error_body :: "string \<Rightarrow> string \<Rightarrow> jsval" where
  "error_body c msg = JObj [(''code'', JStr c), (''message'', JStr msg)]"

definition findItem :: "mem \<Rightarrow> string \<Rightarrow> nat option" where
  "findItem m iid =
     find (\<lambda>a. strict_eq (get_prop (heap m ! a) ''item_id'') (JStr iid)) (inventory_items (db m))"

subsection \<open>\<^verbatim>\<open>POST /api/v1/inventory\<close>\<close>

text \<open>The record of a new item: the six properties the server sets, then every property
  of the request body assigned over them.\<close>

definition new_record :: "env \<Rightarrow> string \<Rightarrow> obj \<Rightarrow> obj" where
  "new_record e uid req_body =
     Object_assign
       [(''item_id'', JStr (uuid_item e)),
        (''created_at'', JStr (iso_created e)),
        (''updated_at'', JStr (iso_updated e)),
        (''deleted_at'', JNull),
        (''created_by'', JStr uid),
        (''updated_by'', JStr uid)]
       req_body"

definition create_fn :: "env \<Rightarrow> string \<Rightarrow> jsval \<Rightarrow> obj \<Rightarrow> mem \<Rightarrow> (nat \<times> payload) \<times> mem" where
  "create_fn e uid sku req_body m =
     (if list_ex (\<lambda>x. strict_eq (get_prop (heap m ! x) ''sku'') sku
                     \<and> \<not> truthy (get_prop (heap m ! x) ''deleted_at''))
           (inventory_items (db m))
      then ((409, Lit (error_body ''DUPLICATE_SKU'' ''SKU already exists'')), m)
      else
        let iid = uuid_item e;
            rec = new_record e uid req_body;
            a = length (heap m);
            entry = AuditEntry (uuid_audit e) (JStr iid) ''CREATE'' uid (iso_changed e) JNull a
        in ((201, Ref a),
            \<lparr>heap = heap m @ [rec],
             db = (db m)\<lparr>inventory_items := inventory_items (db m) @ [a],
                         inventory_audit := entry # inventory_audit (db m)\<rparr>\<rparr>))"

definition post_inventory ::
  "env \<Rightarrow> string \<Rightarrow> obj \<Rightarrow> filesystem \<Rightarrow> (error + response) \<times> filesystem" where
  "post_inventory e uid req_body fs =
     (let sku = get_prop req_body ''sku'';
          product_name = get_prop req_body ''product_name''
      in if \<not> truthy sku \<or> \<not> truthy product_name
         then (Inr (Response 400 (error_body ''VALIDATION'' ''sku & product_name required'')), fs)
         else respond (withDb (returning (create_fn e uid sku req_body)) (ms_now e) fs))"

subsection \<open>\<^verbatim>\<open>PATCH /api/v1/inventory/:id\<close>\<close>

definition allowed :: "string list" where
  "allowed = [''product_name'', ''category'', ''quantity'', ''supplier'', ''price'',
              ''location'', ''metadata'']"

definition collect_updates :: "obj \<Rightarrow> obj" where
  "collect_updates req_body =
     foldl (\<lambda>updates k. if has_prop req_body k then set_prop updates k (get_prop req_body k)
                         else updates)
       [] allowed"

text \<open>The value assigned for key \<open>k\<close>:
  \<^verbatim>\<open>(k==='quantity'||k==='price') ? (updates[k]==null ? null : Number(updates[k])) : updates[k]\<close>.\<close>

definition coerce_field :: "conversions \<Rightarrow> string \<Rightarrow> jsval \<Rightarrow> error + jsval" where
  "coerce_field conv k v =
     (if k = ''quantity'' \<or> k = ''price''
      then (if v = JNull \<or> v = JUndefined then Inr JNull
            else (case Number_js conv v of Inl err \<Rightarrow> Inl err | Inr n \<Rightarrow> Inr (JNum n)))
      else Inr v)"

text \<open>The loop \<^verbatim>\<open>for (const k in updates) ex[k] = ...\<close>; it stops at the first exception.\<close>

definition assign_updates :: "conversions \<Rightarrow> obj \<Rightarrow> obj \<Rightarrow> error + obj" where
  "assign_updates conv updates ex =
     foldl (\<lambda>acc k. case acc of
                       Inl err \<Rightarrow> Inl err
                     | Inr x \<Rightarrow> (case coerce_field conv k (get_prop updates k) of
                                   Inl err \<Rightarrow> Inl err
                                 | Inr v \<Rightarrow> Inr (set_prop x k v)))
       (Inr ex) (map fst updates)"

definition make_diff :: "obj \<Rightarrow> obj \<Rightarrow> obj \<Rightarrow> obj" where
  "make_diff before ex updates =
     foldl (\<lambda>d k. set_prop d k (JObj [(''before'', get_prop before k), (''after'', get_prop ex k)]))
       [] (map fst updates)"

text \<open>The assignments of the handler to the item \<^verbatim>\<open>ex\<close>, in their order.\<close>

definition patched :: "conversions \<Rightarrow> env \<Rightarrow> string \<Rightarrow> obj \<Rightarrow> obj \<Rightarrow> error + obj" where
  "patched conv e uid updates ex =
     (case assign_updates conv updates ex of
        Inl err \<Rightarrow> Inl err
      | Inr ex1 \<Rightarrow>
          let ex2 = set_prop ex1 ''updated_at'' (JStr (iso_updated e));
              ex3 = set_prop ex2 ''updated_by'' (JStr uid)
          in Inr ex3)"

definition update_fn ::
  "conversions \<Rightarrow> env \<Rightarrow> string \<Rightarrow> string \<Rightarrow> obj \<Rightarrow> mem \<Rightarrow> error + (nat \<times> payload) \<times> mem" where
  "update_fn conv e uid iid updates m =
     (case findItem m iid of
        None \<Rightarrow> Inr ((404, Lit (JObj [(''code'', JStr ''NOT_FOUND'')])), m)
      | Some a \<Rightarrow>
          let before = heap m ! a
          in case patched conv e uid updates (heap m ! a) of
               Inl err \<Rightarrow> Inl err
             | Inr ex3 \<Rightarrow>
                 let h = (heap m)[a := ex3];
                     diff = make_diff before (h ! a) updates;
                     entry = AuditEntry (uuid_audit e) (get_prop (h ! a) ''item_id'') ''UPDATE'' uid
                               (iso_changed e) (JObj diff) (length h)
                 in Inr ((200, Ref a),
                         \<lparr>heap = h @ [h ! a],
                          db = (db m)\<lparr>inventory_audit := entry # inventory_audit (db m)\<rparr>\<rparr>))"

definition patch_inventory ::
  "conversions \<Rightarrow> env \<Rightarrow> string \<Rightarrow> string \<Rightarrow> obj \<Rightarrow> filesystem
     \<Rightarrow> (error + response) \<times> filesystem" where
  "patch_inventory conv e uid iid req_body fs =
     (let updates = collect_updates req_body
      in if length (map fst updates) = 0
         then (Inr (Response 400 (error_body ''NO_UPDATES'' ''No valid fields'')), fs)
         else respond (withDb (update_fn conv e uid iid updates) (ms_now e) fs))"

subsection \<open>\<^verbatim>\<open>DELETE /api/v1/inventory/:id\<close>\<close>

text \<open>The assignments of the handler to the item \<^verbatim>\<open>ex\<close>, in their order.\<close>

definition soft_deleted :: "env \<Rightarrow> string \<Rightarrow> obj \<Rightarrow> obj" where
  "soft_deleted e uid ex =
     (let ex1 = set_prop ex ''deleted_at'' (JStr (iso_deleted e));
          ex2 = set_prop ex1 ''updated_at'' (get_prop ex1 ''deleted_at'');
          ex3 = set_prop ex2 ''updated_by'' (JStr uid)
      in ex3)"

definition delete_fn :: "env \<Rightarrow> string \<Rightarrow> string \<Rightarrow> mem \<Rightarrow> (nat \<times> payload) \<times> mem" where
  "delete_fn e uid iid m =
     (case findItem m iid of
        None \<Rightarrow> ((404, Lit (JObj [(''code'', JStr ''NOT_FOUND'')])), m)
      | Some a \<Rightarrow>
          let before = get_prop (heap m ! a) ''deleted_at'';
              h = (heap m)[a := soft_deleted e uid (heap m ! a)];
              entry = AuditEntry (uuid_audit e) (get_prop (h ! a) ''item_id'') ''DELETE'' uid
                        (iso_changed e)
                        (JObj [(''deleted_at'',
                                JObj [(''before'', before),
                                      (''after'', get_prop (h ! a) ''deleted_at'')])])
                        (length h)
          in ((200, Lit (JObj [(''ok'', JBool True)])),
              \<lparr>heap = h @ [h ! a],
               db = (db m)\<lparr>inventory_audit := entry # inventory_audit (db m)\<rparr>\<rparr>))"

definition delete_inventory ::
  "env \<Rightarrow> string \<Rightarrow> string \<Rightarrow> filesystem \<Rightarrow> (error + response) \<times> filesystem" where
  "delete_inventory e uid iid fs =
     respond (withDb (returning (delete_fn e uid iid)) (ms_now e) fs)"

subsection \<open>Requests, one after the other\<close>

text \<open>\<^verbatim>\<open>requireAuth\<close> lets a request through as the user \<^verbatim>\<open>admin\<close>.\<close>

datatype request =
    POST_inventory obj
  | PATCH_inventory string obj
  | DELETE_inventory string

fun handle ::
  "conversions \<Rightarrow> env \<Rightarrow> request \<Rightarrow> filesystem \<Rightarrow> (error + response) \<times> filesystem" where
  "handle conv e (POST_inventory req_body) fs = post_inventory e ''admin'' req_body fs"
| "handle conv e (PATCH_inventory iid req_body) fs = patch_inventory conv e ''admin'' iid req_body fs"
| "handle conv e (DELETE_inventory iid) fs = delete_inventory e ''admin'' iid fs"

fun run :: "conversions \<Rightarrow> (env \<times> request) list \<Rightarrow> filesystem \<Rightarrow> filesystem" where
  "run conv [] fs = fs"
| "run conv ((e, rq) # rest) fs = run conv rest (snd (handle conv e rq fs))"

text \<open>The document a file system holds, as \<^verbatim>\<open>loadDb\<close> would read it.\<close>

definition stored :: "filesystem \<Rightarrow> obj document" where
  "stored fs = (case fs DB_FILE of Some (Json_text d) \<Rightarrow> d | _ \<Rightarrow> empty_db)"

text \<open>A document is JSON when writing it and reading it back changes nothing: it holds
  no \<^verbatim>\<open>undefined\<close>, no \<^verbatim>\<open>NaN\<close> and no infinity. Every document that \<^verbatim>\<open>saveDb\<close> wrote is.\<close>

definition is_json :: "obj document \<Rightarrow> bool" where
  "is_json d = (JSON_stringify (JSON_parse d) = d)"

text \<open>The position of the item that \<^verbatim>\<open>findItem\<close> returns: the first one with the
  given \<^verbatim>\<open>item_id\<close>.\<close>

definition item_index :: "obj document \<Rightarrow> string \<Rightarrow> nat option" where
  "item_index d iid =
     find (\<lambda>i. strict_eq (get_prop (inventory_items d ! i) ''item_id'') (JStr iid))
       [0..<length (inventory_items d)]"

text \<open>A document written and read back, collection by collection.\<close>

definition jsonify_doc :: "obj document \<Rightarrow> obj document" where
  "jsonify_doc d =
     \<lparr>users = map jsonify (users d),
      inventory_items = map jsonify_obj (inventory_items d),
      inventory_audit = map jsonify_entry (inventory_audit d),
      app_meta = jsonify_prop (app_meta d)\<rparr>"

section \<open>The effect of a transaction on the stored document\<close>

text \<open>
  The test of \<^verbatim>\<open>POST\<close> for an active item with the same \<^verbatim>\<open>sku\<close>, and the documents that
  the three transactions leave in memory, written over the stored document instead of
  the heap. The lemmas of the next section show that they are what the handlers compute.
\<close>

definition duplicate_sku :: "obj document \<Rightarrow> jsval \<Rightarrow> bool" where
  "duplicate_sku d sku = (\<exists>x\<in>set (inventory_items d).
      strict_eq (get_prop x ''sku'') sku \<and> \<not> truthy (get_prop x ''deleted_at''))"

definition created_doc :: "env \<Rightarrow> string \<Rightarrow> obj \<Rightarrow> obj document \<Rightarrow> obj document" where
  "created_doc e uid req_body d =
     \<lparr>users = users d,
      inventory_items = inventory_items d @ [new_record e uid req_body],
      inventory_audit =
        AuditEntry (uuid_audit e) (JStr (uuid_item e)) ''CREATE'' uid (iso_changed e) JNull
          (new_record e uid req_body)
        # inventory_audit d,
      app_meta = app_meta d\<rparr>"

definition updated_doc :: "env \<Rightarrow> string \<Rightarrow> obj \<Rightarrow> nat \<Rightarrow> obj \<Rightarrow> obj document \<Rightarrow> obj document" where
  "updated_doc e uid ups i ex' d =
     (let ex = inventory_items d ! i in
      \<lparr>users = users d,
       inventory_items = (inventory_items d)[i := ex'],
       inventory_audit =
         AuditEntry (uuid_audit e) (get_prop ex' ''item_id'') ''UPDATE'' uid (iso_changed e)
           (JObj (make_diff ex ex' ups)) ex'
         # inventory_audit d,
       app_meta = app_meta d\<rparr>)"

definition deleted_doc :: "env \<Rightarrow> string \<Rightarrow> nat \<Rightarrow> obj document \<Rightarrow> obj document" where
  "deleted_doc e uid i d =
     (let ex = inventory_items d ! i; ex' = soft_deleted e uid ex in
      \<lparr>users = users d,
       inventory_items = (inventory_items d)[i := ex'],
       inventory_audit =
         AuditEntry (uuid_audit e) (get_prop ex' ''item_id'') ''DELETE'' uid (iso_changed e)
           (JObj [(''deleted_at'',
                   JObj [(''before'', get_prop ex ''deleted_at''),
                         (''after'', get_prop ex' ''deleted_at'')])])
           ex'
         # inventory_audit d,
       app_meta = app_meta d\<rparr>)"

text \<open>An item is active when the server's test \<^verbatim>\<open>!x.deleted_at\<close> holds of it; the data model
  asks that no two active items have the same \<^verbatim>\<open>sku\<close>.\<close>

definition active :: "obj \<Rightarrow> bool" where
  "active x = (\<not> truthy (get_prop x ''deleted_at''))"

definition unique_active_skus :: "obj document \<Rightarrow> bool" where
  "unique_active_skus d =
     (\<forall>i<length (inventory_items d). \<forall>j<length (inventory_items d).
        i \<noteq> j \<longrightarrow> active (inventory_items d ! i) \<longrightarrow> active (inventory_items d ! j) \<longrightarrow>
        \<not> strict_eq (get_prop (inventory_items d ! i) ''sku'')
                     (get_prop (inventory_items d ! j) ''sku''))"

text \<open>The audit trail is newest first when \<^verbatim>\<open>changed_at\<close> never increases along it.\<close>

definition newest_first :: "'r audit_entry list \<Rightarrow> bool" where
  "newest_first es = sorted_wrt (\<lambda>a b. b \<le> a) (map changed_at es)"

text \<open>The position of the item a request creates or changes.\<close>

fun target_index :: "obj document \<Rightarrow> request \<Rightarrow> nat option" where
  "target_index d (POST_inventory req_body) = Some (length (inventory_items d))"
| "target_index d (PATCH_inventory iid req_body) = item_index d iid"
| "target_index d (DELETE_inventory iid) = item_index d iid"

section \<open>Example data\<close>

text \<open>Conversions that read no string as a number and find no string form for an array
  or an object, an empty file system, three readings of the
  clock and the random generator on three successive days, and the request bodies of the
  examples.\<close>

definition no_conv :: conversions where
  "no_conv = \<lparr>StringToNumber = (\<lambda>s. NaN), ObjectToNumber = (\<lambda>v. Inl TypeError)\<rparr>"

definition no_files :: filesystem where
  "no_files p = None"

definition env_first :: env where
  "env_first =
     \<lparr>uuid_item = ''u1'', uuid_audit = ''a1'',
      iso_created = ''2024-01-01T00:00:00.000Z'', iso_updated = ''2024-01-01T00:00:00.000Z'',
      iso_deleted = ''2024-01-01T00:00:00.000Z'', iso_changed = ''2024-01-01T00:00:00.001Z'',
      ms_now = 1704067200000\<rparr>"

definition env_second :: env where
  "env_second =
     \<lparr>uuid_item = ''u2'', uuid_audit = ''a2'',
      iso_created = ''2024-01-02T00:00:00.000Z'', iso_updated = ''2024-01-02T00:00:00.000Z'',
      iso_deleted = ''2024-01-02T00:00:00.000Z'', iso_changed = ''2024-01-02T00:00:00.001Z'',
      ms_now = 1704153600000\<rparr>"

definition env_third :: env where
  "env_third =
     \<lparr>uuid_item = ''u3'', uuid_audit = ''a3'',
      iso_created = ''2024-01-03T00:00:00.000Z'', iso_updated = ''2024-01-03T00:00:00.000Z'',
      iso_deleted = ''2024-01-03T00:00:00.000Z'', iso_changed = ''2024-01-03T00:00:00.001Z'',
      ms_now = 1704240000000\<rparr>"

definition widget :: obj where
  "widget = [(''sku'', JStr ''A1''), (''product_name'', JStr ''Widget'')]"

definition quantity_five :: obj where
  "quantity_five = [(''quantity'', JNum (Fin 5))]"

definition corrupt_files :: filesystem where
  "corrupt_files = no_files(DB_FILE \<mapsto> Unparsable ''{users: '')"

text \<open>The file system after one item, the widget, has been created.\<close>

definition one_widget :: filesystem where
  "one_widget = snd (handle no_conv env_first (POST_inventory widget) no_files)"

definition gadget :: obj where
  "gadget = [(''sku'', JStr ''B2''), (''product_name'', JStr ''Gadget'')]"

text \<open>The life of the widget: created, patched, deleted, the clock moving on.\<close>

definition life_of_widget :: "(env \<times> request) list" where
  "life_of_widget =
     [(env_first, POST_inventory widget),
      (env_second, PATCH_inventory ''u1'' quantity_five),
      (env_third, DELETE_inventory ''u1'')]"

text \<open>Two items created, the clock set back by a day in between.\<close>

definition clock_set_back :: "(env \<times> request) list" where
  "clock_set_back =
     [(env_second, POST_inventory widget),
      (env_first, POST_inventory gadget)]"

text \<open>The file system after the quantity of the widget has been set to five.\<close>

definition widget_patched :: filesystem where
  "widget_patched = snd (handle no_conv env_second (PATCH_inventory ''u1'' quantity_five) one_widget)"

text \<open>The file system after the widget has been deleted.\<close>

definition widget_deleted :: filesystem where
  "widget_deleted = snd (handle no_conv env_second (DELETE_inventory ''u1'') one_widget)"

text \<open>A request body that names fields the server sets itself.\<close>

definition forged :: obj where
  "forged =
     [(''sku'', JStr ''A1''), (''product_name'', JStr ''Widget''),
      (''item_id'', JStr ''X''), (''created_at'', JStr ''1999-12-31T00:00:00.000Z''),
      (''deleted_at'', JStr ''2020-01-01T00:00:00.000Z''), (''created_by'', JStr ''mallory'')]"


definition quantity_overflow :: obj where
  "quantity_overflow = [(''quantity'', JNum PInf)]"


definition sku_overflow :: obj where
  "sku_overflow = [(''sku'', JNum PInf), (''product_name'', JStr ''Widget'')]"

section \<open>Lemmas: values, the heap, the store\<close>

lemma get_set_prop: "get_prop (set_prop ob k v) k' = (if k' = k then v else get_prop ob k')"
  by (induction ob) auto

lemma jsonify_not_undefined: "jsonify v \<noteq> JUndefined"
  by (induction v rule: jsonify.induct) auto

lemma jsonify_fields_idem:
  assumes "\<And>k v. (k, v) \<in> set ps \<Longrightarrow> v \<noteq> JUndefined \<Longrightarrow> jsonify (jsonify v) = jsonify v"
  shows "map (\<lambda>(k, v). (k, jsonify v)) (filter (\<lambda>(k, v). v \<noteq> JUndefined)
           (map (\<lambda>(k, v). (k, jsonify v)) (filter (\<lambda>(k, v). v \<noteq> JUndefined) ps)))
       = map (\<lambda>(k, v). (k, jsonify v)) (filter (\<lambda>(k, v). v \<noteq> JUndefined) ps)"
  using assms by (induction ps) (auto simp: jsonify_not_undefined)

lemma jsonify_idem: "jsonify (jsonify v) = jsonify v"
proof (induction v rule: jsonify.induct)
  case (10 ps)
  have "\<And>k v. (k, v) \<in> set ps \<Longrightarrow> v \<noteq> JUndefined \<Longrightarrow> jsonify (jsonify v) = jsonify v"
    using 10 by auto
  then show ?case by (simp add: jsonify_fields_idem)
qed auto

lemma jsonify_obj_idem: "jsonify_obj (jsonify_obj ob) = jsonify_obj ob"
  using jsonify_idem [of "JObj ob"] by (simp add: jsonify_obj_def)

lemma jsonify_prop_idem: "jsonify_prop (jsonify_prop v) = jsonify_prop v"
  by (simp add: jsonify_prop_def jsonify_idem jsonify_not_undefined)

lemma jsonify_entry_idem: "jsonify_entry (jsonify_entry en) = jsonify_entry en"
  by (simp add: jsonify_entry_def jsonify_obj_idem jsonify_prop_idem)

lemma jsonify_doc_idem: "jsonify_doc (jsonify_doc d) = jsonify_doc d"
  by (simp add: jsonify_doc_def jsonify_idem jsonify_obj_idem jsonify_entry_idem jsonify_prop_idem)

lemma map_audit_entry_const: "map_audit_entry (\<lambda>_. full_record en) en = en"
  by (cases en) simp

lemma deref_items: 
  assumes "\<forall>i<n. H ! i = X ! i" "length X = n"
  shows "map (\<lambda>a. f (H ! a)) [0..<n] = map f X"
  using assms by (intro nth_equalityI) auto

lemma deref_audit:
  assumes "\<forall>j<length A. H ! (n + j) = full_record (A ! j)"
  shows "map (\<lambda>en. jsonify_entry (map_audit_entry (\<lambda>a. H ! a) en))
           (map (\<lambda>i. map_audit_entry (\<lambda>_. n + i) (A ! i)) [0..<length A])
         = map jsonify_entry A"
  using assms by (intro nth_equalityI) (auto simp: audit_entry.map_comp comp_def map_audit_entry_const)

lemma stringify_parse: "JSON_stringify (JSON_parse d) = jsonify_doc d"
proof -
  let ?X = "inventory_items d" and ?A = "inventory_audit d"
  let ?H = "?X @ map full_record ?A"
  have 1: "map (\<lambda>a. jsonify_obj (?H ! a)) [0..<length ?X] = map jsonify_obj ?X"
    by (rule deref_items) (auto simp: nth_append)
  have 2: "map (\<lambda>en. jsonify_entry (map_audit_entry (\<lambda>a. ?H ! a) en))
           (map (\<lambda>i. map_audit_entry (\<lambda>_. length ?X + i) (?A ! i)) [0..<length ?A])
         = map jsonify_entry ?A"
    by (rule deref_audit) (auto simp: nth_append)
  show ?thesis
    unfolding JSON_stringify_def JSON_parse_def jsonify_doc_def Let_def
    using 1 2 by simp
qed

lemma is_json_iff: "is_json d \<longleftrightarrow> jsonify_doc d = d"
  by (simp add: is_json_def stringify_parse)

lemma is_json_jsonify_doc: "is_json (jsonify_doc d)"
  by (simp add: is_json_iff jsonify_doc_idem)

lemma findItem_parse: "findItem (JSON_parse d) iid = item_index d iid"
  unfolding findItem_def item_index_def JSON_parse_def Let_def
  by (auto intro!: find_cong simp: nth_append)

lemma item_index_SomeD:
  "item_index d iid = Some i \<Longrightarrow>
     i < length (inventory_items d) \<and> strict_eq (get_prop (inventory_items d ! i) ''item_id'') (JStr iid)"
  by (auto simp: item_index_def find_Some_iff)


lemma stringify_mutated:
  assumes "i < length X"
  shows "JSON_stringify
           \<lparr>heap = (X @ map full_record A)[i := x'] @ [x'],
            db = \<lparr>users = U, inventory_items = [0..<length X],
                  inventory_audit =
                    AuditEntry a1 a2 a3 a4 a5 a6 (length X + length A)
                    # map (\<lambda>j. map_audit_entry (\<lambda>_. length X + j) (A ! j)) [0..<length A],
                  app_meta = M\<rparr>\<rparr>
         = jsonify_doc
             \<lparr>users = U, inventory_items = X[i := x'],
              inventory_audit = AuditEntry a1 a2 a3 a4 a5 a6 x' # A, app_meta = M\<rparr>"
proof -
  let ?H = "(X @ map full_record A)[i := x'] @ [x']"
  have 1: "map (\<lambda>a. jsonify_obj (?H ! a)) [0..<length X] = map jsonify_obj (X[i := x'])"
    using assms by (intro deref_items) (auto simp: nth_append nth_list_update)
  have 2: "map (\<lambda>en. jsonify_entry (map_audit_entry (\<lambda>a. ?H ! a) en))
           (map (\<lambda>j. map_audit_entry (\<lambda>_. length X + j) (A ! j)) [0..<length A])
         = map jsonify_entry A"
    using assms by (intro deref_audit) (auto simp: nth_append nth_list_update)
  have 3: "?H ! (length X + length A) = x'"
    by (simp add: nth_append)
  show ?thesis
    unfolding JSON_stringify_def jsonify_doc_def
    using 1 2 3 by (simp add: jsonify_entry_def)
qed

lemma stringify_pushed:
  shows "JSON_stringify
           \<lparr>heap = X @ map full_record A @ [x'],
            db = \<lparr>users = U, inventory_items = [0..<length X] @ [length X + length A],
                  inventory_audit =
                    AuditEntry a1 a2 a3 a4 a5 a6 (length X + length A)
                    # map (\<lambda>j. map_audit_entry (\<lambda>_. length X + j) (A ! j)) [0..<length A],
                  app_meta = M\<rparr>\<rparr>
         = jsonify_doc
             \<lparr>users = U, inventory_items = X @ [x'],
              inventory_audit = AuditEntry a1 a2 a3 a4 a5 a6 x' # A, app_meta = M\<rparr>"
proof -
  let ?H = "X @ map full_record A @ [x']"
  have 1: "map (\<lambda>a. jsonify_obj (?H ! a)) [0..<length X] = map jsonify_obj X"
    by (intro deref_items) (auto simp: nth_append)
  have 2: "map (\<lambda>en. jsonify_entry (map_audit_entry (\<lambda>a. ?H ! a) en))
           (map (\<lambda>j. map_audit_entry (\<lambda>_. length X + j) (A ! j)) [0..<length A])
         = map jsonify_entry A"
    by (intro deref_audit) (auto simp: nth_append)
  have 3: "?H ! (length X + length A) = x'"
    by (simp add: nth_append)
  show ?thesis
    unfolding JSON_stringify_def jsonify_doc_def
    using 1 2 3 by (simp add: jsonify_entry_def)
qed

lemma some_heap: "list_ex (\<lambda>x. P ((X @ Y) ! x)) [0..<length X] \<longleftrightarrow> (\<exists>x\<in>set X. P x)"
proof -
  have "(\<exists>x\<in>set X. P x) \<longleftrightarrow> (\<exists>i<length X. P (X ! i))"
    by (metis in_set_conv_nth)
  then show ?thesis
    by (auto simp: list_ex_iff nth_append)
qed

lemma create_fn_parse:
  "create_fn e uid sku req_body (JSON_parse d) =
     (if duplicate_sku d sku
      then ((409, Lit (error_body ''DUPLICATE_SKU'' ''SKU already exists'')), JSON_parse d)
      else ((201, Ref (length (inventory_items d) + length (inventory_audit d))),
            \<lparr>heap = (inventory_items d @ map full_record (inventory_audit d)) @ [new_record e uid req_body],
             db = \<lparr>users = users d,
                   inventory_items = [0..<length (inventory_items d)] @ [length (inventory_items d) + length (inventory_audit d)],
                   inventory_audit = AuditEntry (uuid_audit e) (JStr (uuid_item e)) ''CREATE'' uid (iso_changed e) JNull (length (inventory_items d) + length (inventory_audit d))
                      # map (\<lambda>j. map_audit_entry (\<lambda>_. length (inventory_items d) + j) (inventory_audit d ! j)) [0..<length (inventory_audit d)],
                   app_meta = app_meta d\<rparr>\<rparr>))"
  using some_heap [of "\<lambda>ob. strict_eq (get_prop ob ''sku'') sku \<and> \<not> truthy (get_prop ob ''deleted_at'')"
      "inventory_items d" "map full_record (inventory_audit d)"]
  by (simp add: create_fn_def JSON_parse_def Let_def duplicate_sku_def)

lemma update_fn_parse:
  "update_fn conv e uid iid ups (JSON_parse d) =
     (case item_index d iid of
        None \<Rightarrow> Inr ((404, Lit (JObj [(''code'', JStr ''NOT_FOUND'')])), JSON_parse d)
      | Some i \<Rightarrow>
         (case patched conv e uid ups (inventory_items d ! i) of
            Inl err \<Rightarrow> Inl err
          | Inr ex' \<Rightarrow>
             Inr ((200, Ref i),
               \<lparr>heap = (inventory_items d @ map full_record (inventory_audit d))[i := ex'] @ [ex'],
                db = \<lparr>users = users d,
                      inventory_items = [0..<length (inventory_items d)],
                      inventory_audit = AuditEntry (uuid_audit e) (get_prop ex' ''item_id'') ''UPDATE'' uid (iso_changed e)
                            (JObj (make_diff (inventory_items d ! i) ex' ups))
                            (length (inventory_items d) + length (inventory_audit d))
                         # map (\<lambda>j. map_audit_entry (\<lambda>_. length (inventory_items d) + j) (inventory_audit d ! j)) [0..<length (inventory_audit d)],
                      app_meta = app_meta d\<rparr>\<rparr>)))"
proof (cases "item_index d iid")
  case None
  then show ?thesis by (simp add: update_fn_def findItem_parse)
next
  case (Some i)
  then have "i < length (inventory_items d)" by (simp add: item_index_SomeD)
  then show ?thesis using Some
    by (simp add: update_fn_def findItem_parse)
       (simp add: JSON_parse_def Let_def nth_append split: sum.split)
qed

lemma delete_fn_parse:
  "delete_fn e uid iid (JSON_parse d) =
     (case item_index d iid of
        None \<Rightarrow> ((404, Lit (JObj [(''code'', JStr ''NOT_FOUND'')])), JSON_parse d)
      | Some i \<Rightarrow>
         ((200, Lit (JObj [(''ok'', JBool True)])),
            \<lparr>heap = (inventory_items d @ map full_record (inventory_audit d))[i := soft_deleted e uid (inventory_items d ! i)]
                    @ [soft_deleted e uid (inventory_items d ! i)],
             db = \<lparr>users = users d,
                   inventory_items = [0..<length (inventory_items d)],
                   inventory_audit = AuditEntry (uuid_audit e) (get_prop (soft_deleted e uid (inventory_items d ! i)) ''item_id'') ''DELETE'' uid (iso_changed e)
                         (JObj [(''deleted_at'', JObj [(''before'', get_prop (inventory_items d ! i) ''deleted_at''),
                                      (''after'', get_prop (soft_deleted e uid (inventory_items d ! i)) ''deleted_at'')])])
                         (length (inventory_items d) + length (inventory_audit d))
                      # map (\<lambda>j. map_audit_entry (\<lambda>_. length (inventory_items d) + j) (inventory_audit d ! j)) [0..<length (inventory_audit d)],
                   app_meta = app_meta d\<rparr>\<rparr>))"
proof (cases "item_index d iid")
  case None
  then show ?thesis by (simp add: delete_fn_def findItem_parse)
next
  case (Some i)
  then have "i < length (inventory_items d)" by (simp add: item_index_SomeD)
  then show ?thesis using Some
    by (simp add: delete_fn_def findItem_parse) (simp add: JSON_parse_def Let_def nth_append)
qed


lemma stringify_create:
  "JSON_stringify (snd (create_fn e uid sku req_body (JSON_parse d))) =
     jsonify_doc (if duplicate_sku d sku then d else created_doc e uid req_body d)"
  by (simp add: create_fn_parse stringify_parse stringify_pushed created_doc_def)

lemma stringify_update:
  assumes "update_fn conv e uid iid ups (JSON_parse d) = Inr r"
  shows "JSON_stringify (snd r) =
     jsonify_doc (case item_index d iid of None \<Rightarrow> d
        | Some i \<Rightarrow> updated_doc e uid ups i (projr (patched conv e uid ups (inventory_items d ! i))) d)"
proof (cases "item_index d iid")
  case None
  then show ?thesis using assms by (auto simp: update_fn_parse stringify_parse)
next
  case (Some i)
  then have "i < length (inventory_items d)" by (simp add: item_index_SomeD)
  then show ?thesis using Some assms
    by (auto simp: update_fn_parse stringify_mutated updated_doc_def Let_def split: sum.splits)
qed

lemma stringify_delete:
  "JSON_stringify (snd (delete_fn e uid iid (JSON_parse d))) =
     jsonify_doc (case item_index d iid of None \<Rightarrow> d | Some i \<Rightarrow> deleted_doc e uid i d)"
proof (cases "item_index d iid")
  case None
  then show ?thesis by (simp add: delete_fn_parse stringify_parse)
next
  case (Some i)
  then have "i < length (inventory_items d)" by (simp add: item_index_SomeD)
  then show ?thesis using Some
    by (simp add: delete_fn_parse stringify_mutated deleted_doc_def Let_def)
qed

lemma parse_empty_db: "JSON_parse empty_db = \<lparr>heap = [], db = empty_db\<rparr>"
  by (simp add: JSON_parse_def empty_db_def)

lemma fst_loadDb: "fst (loadDb now fs) = JSON_parse (stored fs)"
  by (simp add: loadDb_def stored_def parse_empty_db split: option.split contents.split)

lemma stored_saveDb: "stored (saveDb m fs) = JSON_stringify m"
  by (simp add: stored_def saveDb_def)

lemma stored_snd_loadDb: "stored (snd (loadDb now fs)) = stored fs"
  by (simp add: loadDb_def stored_def renameSync_def split: option.split contents.split)

lemma respond_withDb:
  "respond (withDb fn now fs) =
     (case fn (JSON_parse (stored fs)) of
        Inl err \<Rightarrow> (Inl err, snd (loadDb now fs))
      | Inr r \<Rightarrow> (Inr (send r), saveDb (snd r) (snd (loadDb now fs))))"
  using fst_loadDb [of now fs]
  by (simp add: respond_def withDb_def case_prod_beta split: sum.split)

lemma respond_returning:
  "respond (withDb (returning f) now fs) =
     (Inr (send (f (JSON_parse (stored fs)))),
      saveDb (snd (f (JSON_parse (stored fs)))) (snd (loadDb now fs)))"
  by (simp add: respond_withDb returning_def)

lemma stored_post:
  "stored (snd (post_inventory e uid req_body fs)) =
     (if \<not> truthy (get_prop req_body ''sku'') \<or> \<not> truthy (get_prop req_body ''product_name'')
      then stored fs
      else jsonify_doc (if duplicate_sku (stored fs) (get_prop req_body ''sku'') then stored fs
                        else created_doc e uid req_body (stored fs)))"
  by (simp add: post_inventory_def Let_def respond_returning stored_saveDb stringify_create)

lemma stored_patch:
  "stored (snd (patch_inventory conv e uid iid req_body fs)) =
     (if collect_updates req_body = [] then stored fs
      else case item_index (stored fs) iid of
             None \<Rightarrow> jsonify_doc (stored fs)
           | Some i \<Rightarrow>
               (case patched conv e uid (collect_updates req_body) (inventory_items (stored fs) ! i) of
                  Inl err \<Rightarrow> stored fs
                | Inr ex' \<Rightarrow>
                    jsonify_doc (updated_doc e uid (collect_updates req_body) i ex' (stored fs))))"
proof (cases "update_fn conv e uid iid (collect_updates req_body) (JSON_parse (stored fs))")
  case (Inl err)
  then show ?thesis
    by (auto simp: patch_inventory_def Let_def respond_withDb stored_snd_loadDb update_fn_parse
        split: option.splits sum.splits)
next
  case (Inr r)
  from stringify_update [OF Inr] Inr show ?thesis
    by (auto simp: patch_inventory_def Let_def respond_withDb stored_saveDb update_fn_parse
        split: option.splits sum.splits)
qed

lemma stored_delete:
  "stored (snd (delete_inventory e uid iid fs)) =
     jsonify_doc (case item_index (stored fs) iid of None \<Rightarrow> stored fs
             | Some i \<Rightarrow> deleted_doc e uid i (stored fs))"
  by (simp add: delete_inventory_def Let_def respond_returning stored_saveDb stringify_delete)

lemma status_post:
  "status_of (fst (post_inventory e uid req_body fs)) =
     (if \<not> truthy (get_prop req_body ''sku'') \<or> \<not> truthy (get_prop req_body ''product_name'')
      then Some 400
      else if duplicate_sku (stored fs) (get_prop req_body ''sku'') then Some 409 else Some 201)"
  by (simp add: post_inventory_def Let_def respond_returning create_fn_parse send_def)

lemma status_patch:
  "status_of (fst (patch_inventory conv e uid iid req_body fs)) =
     (if collect_updates req_body = [] then Some 400
      else case item_index (stored fs) iid of
             None \<Rightarrow> Some 404
           | Some i \<Rightarrow>
               (case patched conv e uid (collect_updates req_body) (inventory_items (stored fs) ! i) of
                  Inl err \<Rightarrow> None
                | Inr ex' \<Rightarrow> Some 200))"
  by (simp add: patch_inventory_def Let_def respond_withDb update_fn_parse send_def
      split: option.split sum.split)

lemma status_delete:
  "status_of (fst (delete_inventory e uid iid fs)) =
     (case item_index (stored fs) iid of None \<Rightarrow> Some 404 | Some i \<Rightarrow> Some 200)"
  by (simp add: delete_inventory_def Let_def respond_returning delete_fn_parse send_def
      split: option.split)

section \<open>The document store\<close>

text \<open>
  Claim C9. \<^verbatim>\<open>loadDb\<close> returns a fresh document, with empty \<^verbatim>\<open>users\<close>,
  \<^verbatim>\<open>inventory_items\<close>, \<^verbatim>\<open>inventory_audit\<close> and \<^verbatim>\<open>app_meta\<close>, when the file does not exist,
  and leaves the file system as it is. When the file holds a text that does not parse,
  \<^verbatim>\<open>loadDb\<close> returns the same fresh document; the file is gone from its place, its text is
  found under the name extended by \<^verbatim>\<open>.corrupt.\<close> and the clock reading, and no other file
  is touched.
\<close>

theorem loadDb_fresh_or_quarantined:
  "(fs DB_FILE = None \<longrightarrow>
      loadDb now fs =
        (\<lparr>heap = [],
          db = \<lparr>users = [], inventory_items = [], inventory_audit = [], app_meta = JObj []\<rparr>\<rparr>,
         fs))
   \<and> (fs DB_FILE = Some (Unparsable t) \<longrightarrow>
        fst (loadDb now fs) =
          \<lparr>heap = [],
           db = \<lparr>users = [], inventory_items = [], inventory_audit = [], app_meta = JObj []\<rparr>\<rparr>
        \<and> snd (loadDb now fs) DB_FILE = None
        \<and> snd (loadDb now fs) (DB_FILE @ ''.corrupt.'' @ number_to_string now)
            = Some (Unparsable t)
        \<and> (\<forall>p. p \<noteq> DB_FILE \<longrightarrow> p \<noteq> DB_FILE @ ''.corrupt.'' @ number_to_string now
              \<longrightarrow> snd (loadDb now fs) p = fs p))"
  by (simp add: loadDb_def empty_db_def renameSync_def)

theorem loadDb_fresh_or_quarantined_witness:
  "loadDb 1704067200000 no_files =
     (\<lparr>heap = [],
       db = \<lparr>users = [], inventory_items = [], inventory_audit = [], app_meta = JObj []\<rparr>\<rparr>,
      no_files)
   \<and> corrupt_files ''data.json'' = Some (Unparsable ''{users: '')
   \<and> fst (loadDb 1704067200000 corrupt_files) =
        \<lparr>heap = [],
         db = \<lparr>users = [], inventory_items = [], inventory_audit = [], app_meta = JObj []\<rparr>\<rparr>
   \<and> snd (loadDb 1704067200000 corrupt_files) ''data.json'' = None
   \<and> snd (loadDb 1704067200000 corrupt_files) ''data.json.corrupt.1704067200000''
        = Some (Unparsable ''{users: '')"
proof -
  have n: "number_to_string 1704067200000 = ''1704067200000''"
    by (simp add: number_to_string_def digits.simps)
  have 1: "no_files DB_FILE = None"
    by (simp add: no_files_def)
  have 2: "corrupt_files DB_FILE = Some (Unparsable ''{users: '')"
    by (simp add: corrupt_files_def)
  show ?thesis
    using loadDb_fresh_or_quarantined [of no_files 1704067200000]
      loadDb_fresh_or_quarantined [of corrupt_files 1704067200000 "''{users: ''"] 1 2 n
    by (simp add: DB_FILE_def)
qed

section \<open>A patch without allow-listed fields\<close>

lemma foldl_skip:
  "\<forall>k\<in>set ks. \<not> c k \<Longrightarrow> foldl (\<lambda>u k. if c k then f u k else u) acc ks = acc"
  by (induction ks arbitrary: acc) auto

lemma collect_updates_Nil:
  "\<forall>k\<in>set allowed. \<not> has_prop req_body k \<Longrightarrow> collect_updates req_body = []"
  unfolding collect_updates_def by (rule foldl_skip)

text \<open>
  Claim C8. When the request body has none of the allow-listed fields,
  \<^verbatim>\<open>PATCH\<close> answers 400 \<^verbatim>\<open>NO_UPDATES\<close> and returns the file system it was given: \<^verbatim>\<open>withDb\<close>
  is not entered, so nothing is loaded, no audit entry is made and nothing is written (an
  unreadable file is not even moved aside, as a transaction would do).
\<close>

theorem patch_without_allowed_fields:
  assumes "\<forall>k\<in>set allowed. \<not> has_prop req_body k"
  shows "patch_inventory conv e uid iid req_body fs =
           (Inr (Response 400 (error_body ''NO_UPDATES'' ''No valid fields'')), fs)"
  using collect_updates_Nil [OF assms] by (simp add: patch_inventory_def)

theorem patch_without_allowed_fields_witness:
  "filter (has_prop [(''sku'', JStr ''B2''), (''deleted_at'', JNull)]) allowed = []
   \<and> patch_inventory no_conv env_first ''admin'' ''u1'' [(''sku'', JStr ''B2''), (''deleted_at'', JNull)] corrupt_files
       = (Inr (Response 400 (error_body ''NO_UPDATES'' ''No valid fields'')), corrupt_files)"
proof -
  have h: "\<forall>k\<in>set allowed. \<not> has_prop [(''sku'', JStr ''B2''), (''deleted_at'', JNull)] k"
    by (simp add: allowed_def has_prop_def)
  show ?thesis
    using h patch_without_allowed_fields [OF h, of no_conv env_first "''admin''" "''u1''" corrupt_files]
    by (simp add: filter_empty_conv)
qed

section \<open>Failed transactions\<close>

lemma written_post:
  "truthy (get_prop req_body ''sku'') \<Longrightarrow> truthy (get_prop req_body ''product_name'') \<Longrightarrow>
     snd (post_inventory e uid req_body fs) DB_FILE
       = Some (Json_text (stored (snd (post_inventory e uid req_body fs))))"
  by (simp add: post_inventory_def Let_def respond_returning saveDb_def stored_def)

lemma written_patch:
  "status_of (fst (patch_inventory conv e uid iid req_body fs)) \<in> {Some 200, Some 404} \<Longrightarrow>
     snd (patch_inventory conv e uid iid req_body fs) DB_FILE
       = Some (Json_text (stored (snd (patch_inventory conv e uid iid req_body fs))))"
  by (auto simp: patch_inventory_def Let_def respond_withDb saveDb_def stored_def
      split: if_splits sum.splits)

lemma written_delete:
  "snd (delete_inventory e uid iid fs) DB_FILE
     = Some (Json_text (stored (snd (delete_inventory e uid iid fs))))"
  by (simp add: delete_inventory_def Let_def respond_returning saveDb_def stored_def)

lemma stored_no_files: "stored no_files = empty_db"
  by (simp add: stored_def no_files_def)

lemma stored_one_widget:
  "stored one_widget =
    \<lparr>users = [],
     inventory_items =
       [[(''item_id'', JStr ''u1''), (''created_at'', JStr ''2024-01-01T00:00:00.000Z''),
         (''updated_at'', JStr ''2024-01-01T00:00:00.000Z''), (''deleted_at'', JNull),
         (''created_by'', JStr ''admin''), (''updated_by'', JStr ''admin''),
         (''sku'', JStr ''A1''), (''product_name'', JStr ''Widget'')]],
     inventory_audit =
       [AuditEntry ''a1'' (JStr ''u1'') ''CREATE'' ''admin'' ''2024-01-01T00:00:00.001Z'' JNull
          [(''item_id'', JStr ''u1''), (''created_at'', JStr ''2024-01-01T00:00:00.000Z''),
           (''updated_at'', JStr ''2024-01-01T00:00:00.000Z''), (''deleted_at'', JNull),
           (''created_by'', JStr ''admin''), (''updated_by'', JStr ''admin''),
           (''sku'', JStr ''A1''), (''product_name'', JStr ''Widget'')]],
     app_meta = JObj []\<rparr>"
  by (simp add: one_widget_def stored_post widget_def stored_no_files duplicate_sku_def
      empty_db_def created_doc_def new_record_def Object_assign_def env_first_def jsonify_doc_def
      jsonify_obj_def jsonify_entry_def jsonify_prop_def)

lemma is_json_one_widget: "is_json (stored one_widget)"
  by (simp add: one_widget_def stored_post widget_def is_json_jsonify_doc)

text \<open>
  Claim C10. A transaction function that answers with a domain error (409 on create, 404
  on update or delete) returns the memory it was given, untouched. \<^verbatim>\<open>withDb\<close> still
  writes the file, and what it writes is the document it loaded: for a JSON document in
  the file, the stored document after the failed request is the stored document before.
\<close>

theorem failed_transaction_changes_nothing:
  "(fst (fst (create_fn e uid sku req_body m)) = 409 \<longrightarrow> snd (create_fn e uid sku req_body m) = m)
   \<and> (update_fn conv e uid iid updates m = Inr ((404, b), m') \<longrightarrow> m' = m)
   \<and> (fst (fst (delete_fn e uid iid m)) = 404 \<longrightarrow> snd (delete_fn e uid iid m) = m)
   \<and> (is_json (stored fs) \<longrightarrow>
        status_of (fst (handle conv e rq fs)) \<in> {Some 404, Some 409} \<longrightarrow>
        stored (snd (handle conv e rq fs)) = stored fs
        \<and> snd (handle conv e rq fs) DB_FILE = Some (Json_text (stored fs)))"
proof (intro conjI impI)
  show "snd (create_fn e uid sku req_body m) = m" if "fst (fst (create_fn e uid sku req_body m)) = 409"
    using that by (simp add: create_fn_def Let_def split: if_splits)
  show "m' = m" if "update_fn conv e uid iid updates m = Inr ((404, b), m')"
    using that by (simp add: update_fn_def Let_def split: option.splits sum.splits)
  show "snd (delete_fn e uid iid m) = m" if "fst (fst (delete_fn e uid iid m)) = 404"
    using that by (simp add: delete_fn_def Let_def split: option.splits)
next
  assume j: "is_json (stored fs)"
    and st: "status_of (fst (handle conv e rq fs)) \<in> {Some 404, Some 409}"
  from j have jd: "jsonify_doc (stored fs) = stored fs" by (simp add: is_json_iff)
  show "stored (snd (handle conv e rq fs)) = stored fs"
  proof (cases rq)
    case (POST_inventory req_body)
    then show ?thesis using st jd
      by (simp add: stored_post status_post split: if_splits)
  next
    case (PATCH_inventory iid' req_body)
    then show ?thesis using st jd
      by (simp add: stored_patch status_patch split: if_splits option.splits sum.splits)
  next
    case (DELETE_inventory iid')
    then show ?thesis using st jd
      by (simp add: stored_delete status_delete split: option.splits)
  qed
  then show "snd (handle conv e rq fs) DB_FILE = Some (Json_text (stored fs))"
  proof (cases rq)
    case (POST_inventory req_body)
    then show ?thesis using st written_post [of req_body e "''admin''" fs] \<open>stored (snd (handle conv e rq fs)) = stored fs\<close>
      by (simp add: status_post split: if_splits)
  next
    case (PATCH_inventory iid' req_body)
    with st have "status_of (fst (patch_inventory conv e ''admin'' iid' req_body fs)) = Some 404"
      by (auto simp: status_patch split: if_splits option.splits sum.splits)
    then have "status_of (fst (patch_inventory conv e ''admin'' iid' req_body fs)) \<in> {Some 200, Some 404}"
      by simp
    from written_patch [OF this] show ?thesis
      using PATCH_inventory \<open>stored (snd (handle conv e rq fs)) = stored fs\<close> by simp
  next
    case (DELETE_inventory iid')
    then show ?thesis using st written_delete [of e "''admin''" iid' fs] \<open>stored (snd (handle conv e rq fs)) = stored fs\<close>
      by simp
  qed
qed

theorem failed_transaction_changes_nothing_witness:
  "is_json (stored one_widget)
   \<and> fst (handle no_conv env_second (POST_inventory widget) one_widget)
       = Inr (Response 409 (error_body ''DUPLICATE_SKU'' ''SKU already exists''))
   \<and> stored (snd (handle no_conv env_second (POST_inventory widget) one_widget)) = stored one_widget
   \<and> status_of (fst (handle no_conv env_second (DELETE_inventory ''nobody'') one_widget)) = Some 404
   \<and> stored (snd (handle no_conv env_second (DELETE_inventory ''nobody'') one_widget)) = stored one_widget
   \<and> status_of (fst (handle no_conv env_second (PATCH_inventory ''nobody'' quantity_five) one_widget))
       = Some 404
   \<and> stored (snd (handle no_conv env_second (PATCH_inventory ''nobody'' quantity_five) one_widget)) = stored one_widget"
proof -
  have dup: "duplicate_sku (stored one_widget) (JStr ''A1'')"
    by (simp add: stored_one_widget duplicate_sku_def)
  have nf: "item_index (stored one_widget) ''nobody'' = None"
    by (simp add: stored_one_widget item_index_def)
  have cu: "collect_updates quantity_five \<noteq> []"
    by (simp add: collect_updates_def quantity_five_def allowed_def has_prop_def)
  have 1: "fst (handle no_conv env_second (POST_inventory widget) one_widget)
       = Inr (Response 409 (error_body ''DUPLICATE_SKU'' ''SKU already exists''))"
    using dup
    by (simp add: post_inventory_def widget_def Let_def respond_returning create_fn_parse send_def error_body_def)
  have 2: "status_of (fst (handle no_conv env_second (DELETE_inventory ''nobody'') one_widget)) = Some 404"
    using nf by (simp add: status_delete)
  have 3: "status_of (fst (handle no_conv env_second (PATCH_inventory ''nobody'' quantity_five) one_widget)) = Some 404"
    using nf cu by (simp add: status_patch)
  show ?thesis
    using is_json_one_widget 1 2 3
      failed_transaction_changes_nothing [where fs = one_widget and conv = no_conv and e = env_second
        and rq = "POST_inventory widget"]
      failed_transaction_changes_nothing [where fs = one_widget and conv = no_conv and e = env_second
        and rq = "DELETE_inventory ''nobody''"]
      failed_transaction_changes_nothing [where fs = one_widget and conv = no_conv and e = env_second
        and rq = "PATCH_inventory ''nobody'' quantity_five"]
    by simp
qed

section \<open>Lemmas: what a request does to the stored document\<close>

lemma json_obj_iff:
  "jsonify_obj ob = ob \<longleftrightarrow> (\<forall>(k, v)\<in>set ob. v \<noteq> JUndefined \<and> jsonify v = v)"
proof
  assume eq: "jsonify_obj ob = ob"
  let ?P = "\<lambda>(k, v). v \<noteq> JUndefined" and ?f = "\<lambda>(k, v). (k, jsonify v)"
  have "length (filter ?P ob) = length ob"
    using eq by (metis jsonify_obj_def length_map)
  then have all: "\<forall>x\<in>set ob. ?P x"
    by (metis filter_id_conv length_filter_less less_irrefl_nat)
  then have "filter ?P ob = ob" by simp
  with eq have "map ?f ob = map (\<lambda>x. x) ob" by (simp add: jsonify_obj_def)
  then have "\<forall>x\<in>set ob. ?f x = x" by (simp only: map_eq_conv)
  with all show "\<forall>(k, v)\<in>set ob. v \<noteq> JUndefined \<and> jsonify v = v"
    by (auto split: prod.splits)
next
  assume a: "\<forall>(k, v)\<in>set ob. v \<noteq> JUndefined \<and> jsonify v = v"
  then have "filter (\<lambda>(k, v). v \<noteq> JUndefined) ob = ob"
    by (auto simp: filter_id_conv)
  moreover have "map (\<lambda>(k, v). (k, jsonify v)) ob = ob"
    using a by (intro map_idI) auto
  ultimately show "jsonify_obj ob = ob" by (simp add: jsonify_obj_def)
qed

lemma is_json_items:
  assumes "is_json d" "x \<in> set (inventory_items d)"
  shows "jsonify_obj x = x"
proof -
  have "map jsonify_obj (inventory_items d) = map (\<lambda>x. x) (inventory_items d)"
    using assms(1) by (simp add: is_json_iff jsonify_doc_def) (metis document.select_convs(2))
  then show ?thesis using assms(2) by (simp only: map_eq_conv)
qed

lemma is_json_audit:
  assumes "is_json d"
  shows "map jsonify_entry (inventory_audit d) = inventory_audit d"
  using assms by (simp add: is_json_iff jsonify_doc_def) (metis document.select_convs(3))

lemma is_json_handle:
  assumes "is_json (stored fs)"
  shows "is_json (stored (snd (handle conv e rq fs)))"
  using assms
  by (cases rq)
     (auto simp: stored_post stored_patch stored_delete is_json_jsonify_doc
        split: option.split sum.split)

lemma is_json_run:
  "is_json (stored fs) \<Longrightarrow> is_json (stored (run conv rqs fs))"
  by (induction rqs arbitrary: fs) (auto simp: is_json_handle)

lemma failure_effect:
  assumes "is_json (stored fs)" "status_of (fst (handle conv e rq fs)) \<notin> {Some 200, Some 201}"
  shows "stored (snd (handle conv e rq fs)) = stored fs"
proof -
  from assms(1) have jd: "jsonify_doc (stored fs) = stored fs" by (simp add: is_json_iff)
  show ?thesis
  proof (cases rq)
    case (POST_inventory req_body)
    then show ?thesis using assms(2) jd
      by (auto simp: stored_post status_post split: if_splits)
  next
    case (PATCH_inventory iid' req_body)
    then show ?thesis using assms(2) jd
      by (simp add: stored_patch status_patch split: if_splits option.splits sum.splits)
  next
    case (DELETE_inventory iid')
    then show ?thesis using assms(2) jd
      by (simp add: stored_delete status_delete split: option.splits)
  qed
qed

lemma success_effect:
  assumes "is_json (stored fs)" "status_of (fst (handle conv e rq fs)) \<in> {Some 200, Some 201}"
  shows "\<exists>i en. target_index (stored fs) rq = Some i
          \<and> i < length (inventory_items (stored (snd (handle conv e rq fs))))
          \<and> length (inventory_items (stored fs)) \<le> length (inventory_items (stored (snd (handle conv e rq fs))))
          \<and> inventory_audit (stored (snd (handle conv e rq fs))) = en # inventory_audit (stored fs)
          \<and> changed_at en = iso_changed e
          \<and> full_record en = inventory_items (stored (snd (handle conv e rq fs))) ! i"
proof -
  note au = is_json_audit [OF assms(1)]
  show ?thesis
  proof (cases rq)
    case (POST_inventory req_body)
    then show ?thesis using assms(2) au
      by (simp add: stored_post status_post jsonify_doc_def created_doc_def jsonify_entry_def nth_append
          split: if_splits)
  next
    case (PATCH_inventory iid' req_body)
    with assms(2) obtain i ex' where i: "item_index (stored fs) iid' = Some i"
      and c: "collect_updates req_body \<noteq> []"
      and p: "patched conv e ''admin'' (collect_updates req_body) (inventory_items (stored fs) ! i) = Inr ex'"
      by (auto simp: status_patch split: if_splits option.splits sum.splits)
    then have "i < length (inventory_items (stored fs))" by (simp add: item_index_SomeD)
    then show ?thesis using PATCH_inventory i c p au
      by (simp add: stored_patch jsonify_doc_def updated_doc_def Let_def jsonify_entry_def)
  next
    case (DELETE_inventory iid')
    with assms(2) obtain i where i: "item_index (stored fs) iid' = Some i"
      by (auto simp: status_delete split: option.splits)
    then have "i < length (inventory_items (stored fs))" by (simp add: item_index_SomeD)
    then show ?thesis using DELETE_inventory i au
      by (simp add: stored_delete jsonify_doc_def deleted_doc_def Let_def jsonify_entry_def)
  qed
qed

lemma audit_grows_handle:
  assumes "is_json (stored fs)"
  shows "\<exists>new. inventory_audit (stored (snd (handle conv e rq fs))) = new @ inventory_audit (stored fs)"
proof (cases "status_of (fst (handle conv e rq fs)) \<in> {Some 200, Some 201}")
  case True
  from success_effect [OF assms True] obtain en where
    "inventory_audit (stored (snd (handle conv e rq fs))) = [en] @ inventory_audit (stored fs)"
    by auto
  then show ?thesis by blast
next
  case False
  from failure_effect [OF assms False] show ?thesis by simp
qed

lemma audit_grows_run:
  "is_json (stored fs) \<Longrightarrow>
     \<exists>new. inventory_audit (stored (run conv rqs fs)) = new @ inventory_audit (stored fs)"
proof (induction rqs arbitrary: fs)
  case Nil
  then show ?case by simp
next
  case (Cons a rqs)
  obtain e rq where a: "a = (e, rq)" by (cases a)
  let ?fs1 = "snd (handle conv e rq fs)"
  from Cons.prems have j1: "is_json (stored ?fs1)" by (rule is_json_handle)
  from Cons.IH [OF j1] obtain n1 where
    1: "inventory_audit (stored (run conv rqs ?fs1)) = n1 @ inventory_audit (stored ?fs1)" by blast
  from audit_grows_handle [OF Cons.prems] obtain n2 where
    2: "inventory_audit (stored ?fs1) = n2 @ inventory_audit (stored fs)" by blast
  from 1 2 a show ?case by simp
qed

lemma newest_first_run:
  assumes "is_json (stored fs)" "newest_first (inventory_audit (stored fs))"
    "\<forall>en\<in>set (inventory_audit (stored fs)). \<forall>(e', rq')\<in>set rqs. changed_at en \<le> iso_changed e'"
    "sorted (map (\<lambda>(e', rq'). iso_changed e') rqs)"
  shows "newest_first (inventory_audit (stored (run conv rqs fs)))"
  using assms
proof (induction rqs arbitrary: fs)
  case Nil
  then show ?case by simp
next
  case (Cons a rqs)
  obtain e rq where a: "a = (e, rq)" by (cases a)
  let ?fs1 = "snd (handle conv e rq fs)"
  have j1: "is_json (stored ?fs1)" using Cons.prems(1) by (rule is_json_handle)
  have srt: "sorted (map (\<lambda>(e', rq'). iso_changed e') rqs)"
    and le: "\<forall>(e', rq')\<in>set rqs. iso_changed e \<le> iso_changed e'"
    using Cons.prems(4) a by auto
  have old: "\<forall>en\<in>set (inventory_audit (stored fs)). changed_at en \<le> iso_changed e"
    using Cons.prems(3) a by auto
  have "newest_first (inventory_audit (stored ?fs1))
      \<and> (\<forall>en\<in>set (inventory_audit (stored ?fs1)). \<forall>(e', rq')\<in>set rqs. changed_at en \<le> iso_changed e')"
  proof (cases "status_of (fst (handle conv e rq fs)) \<in> {Some 200, Some 201}")
    case True
    from success_effect [OF Cons.prems(1) True] obtain en where
      en: "inventory_audit (stored ?fs1) = en # inventory_audit (stored fs)" "changed_at en = iso_changed e"
      by auto
    show ?thesis using en old le Cons.prems(2,3)
      by (auto simp: newest_first_def)
  next
    case False
    from failure_effect [OF Cons.prems(1) False] show ?thesis
      using Cons.prems(2,3) by auto
  qed
  then have "newest_first (inventory_audit (stored (run conv rqs ?fs1)))"
    using Cons.IH [OF j1 _ _ srt] by blast
  then show ?case using a by simp
qed

lemma is_json_no_files: "is_json (stored no_files)"
  by (simp add: stored_no_files is_json_iff jsonify_doc_def empty_db_def jsonify_prop_def)

lemma audit_no_files: "inventory_audit (stored no_files) = []"
  by (simp add: stored_no_files empty_db_def)

lemma item_index_one_widget: "item_index (stored one_widget) ''u1'' = Some 0"
  by (simp add: stored_one_widget item_index_def)

lemma collect_updates_quantity_five: "collect_updates quantity_five = quantity_five"
  by (simp add: collect_updates_def quantity_five_def allowed_def has_prop_def)

lemma quantity_five_not_empty: "quantity_five \<noteq> []"
  by (simp add: quantity_five_def)

lemma patched_quantity_five:
  "patched no_conv env_second ''admin'' quantity_five (inventory_items (stored one_widget) ! 0)
     = Inr [(''item_id'', JStr ''u1''), (''created_at'', JStr ''2024-01-01T00:00:00.000Z''),
            (''updated_at'', JStr ''2024-01-02T00:00:00.000Z''), (''deleted_at'', JNull),
            (''created_by'', JStr ''admin''), (''updated_by'', JStr ''admin''),
            (''sku'', JStr ''A1''), (''product_name'', JStr ''Widget''),
            (''quantity'', JNum (Fin 5))]"
  by (simp add: stored_one_widget patched_def assign_updates_def coerce_field_def
        quantity_five_def env_second_def Let_def)


section \<open>The audit trail\<close>

text \<open>
  Claim C2, as amended. A successful request (status 200 or 201) puts exactly one entry in
  front of \<^verbatim>\<open>inventory_audit\<close>, stamped with the clock reading taken for \<^verbatim>\<open>changed_at\<close>, and
  leaves the entries that were there as they were. The trail is therefore newest first by
  insertion. It is newest first by \<^verbatim>\<open>changed_at\<close> after a sequence of requests provided it
  was so before, no entry in it is later than a clock reading of the sequence, and the
  clock readings of the sequence never decrease. The document in the file is a JSON
  document, as every document that \<^verbatim>\<open>saveDb\<close> wrote is.
\<close>

theorem audit_prepended_and_newest_first:
  assumes "is_json (stored fs)"
  shows "(status_of (fst (handle conv e rq fs)) \<in> {Some 200, Some 201} \<longrightarrow>
           (\<exists>en. inventory_audit (stored (snd (handle conv e rq fs)))
                    = en # inventory_audit (stored fs)
                 \<and> changed_at en = iso_changed e))
       \<and> (newest_first (inventory_audit (stored fs)) \<longrightarrow>
          (\<forall>en\<in>set (inventory_audit (stored fs)). \<forall>(e', rq')\<in>set rqs.
               changed_at en \<le> iso_changed e') \<longrightarrow>
          sorted (map (\<lambda>(e', rq'). iso_changed e') rqs) \<longrightarrow>
          newest_first (inventory_audit (stored (run conv rqs fs))))"
proof (intro conjI impI)
  assume "status_of (fst (handle conv e rq fs)) \<in> {Some 200, Some 201}"
  from success_effect [OF assms this]
  show "\<exists>en. inventory_audit (stored (snd (handle conv e rq fs))) = en # inventory_audit (stored fs)
          \<and> changed_at en = iso_changed e"
    by blast
next
  assume "newest_first (inventory_audit (stored fs))"
    "\<forall>en\<in>set (inventory_audit (stored fs)). \<forall>(e', rq')\<in>set rqs. changed_at en \<le> iso_changed e'"
    "sorted (map (\<lambda>(e', rq'). iso_changed e') rqs)"
  with assms show "newest_first (inventory_audit (stored (run conv rqs fs)))"
    by (rule newest_first_run)
qed

theorem audit_prepended_and_newest_first_witness:
  "is_json (stored no_files)
   \<and> status_of (fst (handle no_conv env_first (POST_inventory widget) no_files)) = Some 201
   \<and> (\<exists>en. inventory_audit (stored (snd (handle no_conv env_first (POST_inventory widget) no_files)))
              = en # inventory_audit (stored no_files)
          \<and> changed_at en = ''2024-01-01T00:00:00.001Z'')
   \<and> sorted (map (\<lambda>(e', rq'). iso_changed e') life_of_widget)
   \<and> newest_first (inventory_audit (stored (run no_conv life_of_widget no_files)))"
proof -
  have st: "status_of (fst (handle no_conv env_first (POST_inventory widget) no_files)) = Some 201"
    by (simp add: status_post widget_def stored_no_files duplicate_sku_def empty_db_def)
  have srt: "sorted (map (\<lambda>(e', rq'). iso_changed e') life_of_widget)"
    by (simp add: life_of_widget_def env_first_def env_second_def env_third_def)
  show ?thesis
    using audit_prepended_and_newest_first [OF is_json_no_files, of no_conv env_first "POST_inventory widget" life_of_widget]
      is_json_no_files st srt
    by (simp add: audit_no_files newest_first_def env_first_def)
qed

text \<open>
  Claim C2, as stated, fails: \<^verbatim>\<open>changed_at\<close> is read from the wall clock, and nothing in the
  server orders it. Two items created in turn, the clock set back by a day between the
  two requests, leave a trail whose first entry is the older one.
\<close>

theorem audit_not_newest_first_counterexample:
  "map changed_at (inventory_audit (stored (run no_conv clock_set_back no_files)))
     = [''2024-01-01T00:00:00.001Z'', ''2024-01-02T00:00:00.001Z'']
   \<and> \<not> newest_first (inventory_audit (stored (run no_conv clock_set_back no_files)))"
  by (simp add: clock_set_back_def stored_post stored_no_files widget_def gadget_def
      duplicate_sku_def empty_db_def created_doc_def jsonify_doc_def jsonify_entry_def
      newest_first_def env_first_def env_second_def new_record_def Object_assign_def jsonify_obj_def)

text \<open>
  Claim C4. After a successful request the entry in front of the trail holds, as
  \<^verbatim>\<open>full_record\<close>, the item that the request created or changed as it is stored after the
  request. Whatever requests follow, the trail they leave ends with the trail as it was:
  no later change of an item reaches the \<^verbatim>\<open>full_record\<close> of an earlier entry. (In
  memory \<^verbatim>\<open>POST\<close> puts the item itself, not a copy, into the entry; the two are written
  to the file as two objects before anything else can be assigned to the item.)
\<close>

theorem full_record_is_item_after_mutation:
  assumes "is_json (stored fs)"
  shows "(status_of (fst (handle conv e rq fs)) \<in> {Some 200, Some 201} \<longrightarrow>
           (\<exists>i en. target_index (stored fs) rq = Some i
              \<and> i < length (inventory_items (stored (snd (handle conv e rq fs))))
              \<and> inventory_audit (stored (snd (handle conv e rq fs)))
                   = en # inventory_audit (stored fs)
              \<and> full_record en = inventory_items (stored (snd (handle conv e rq fs))) ! i))
       \<and> (\<exists>new. inventory_audit (stored (run conv rqs (snd (handle conv e rq fs))))
                   = new @ inventory_audit (stored (snd (handle conv e rq fs))))"
proof (intro conjI impI)
  assume "status_of (fst (handle conv e rq fs)) \<in> {Some 200, Some 201}"
  from success_effect [OF assms this]
  show "\<exists>i en. target_index (stored fs) rq = Some i
              \<and> i < length (inventory_items (stored (snd (handle conv e rq fs))))
              \<and> inventory_audit (stored (snd (handle conv e rq fs)))
                   = en # inventory_audit (stored fs)
              \<and> full_record en = inventory_items (stored (snd (handle conv e rq fs))) ! i"
    by blast
next
  have "is_json (stored (snd (handle conv e rq fs)))"
    using assms by (rule is_json_handle)
  then show "\<exists>new. inventory_audit (stored (run conv rqs (snd (handle conv e rq fs))))
                   = new @ inventory_audit (stored (snd (handle conv e rq fs)))"
    by (rule audit_grows_run)
qed

theorem full_record_is_item_after_mutation_witness:
  "is_json (stored one_widget)
   \<and> status_of (fst (handle no_conv env_second (PATCH_inventory ''u1'' quantity_five) one_widget)) = Some 200
   \<and> target_index (stored one_widget) (PATCH_inventory ''u1'' quantity_five) = Some 0
   \<and> full_record (hd (inventory_audit (stored widget_patched)))
       = inventory_items (stored widget_patched) ! 0
   \<and> (\<exists>new. inventory_audit (stored (run no_conv [(env_third, DELETE_inventory ''u1'')] widget_patched))
               = new @ inventory_audit (stored widget_patched))"
proof -
  have st: "status_of (fst (handle no_conv env_second (PATCH_inventory ''u1'' quantity_five) one_widget)) = Some 200"
    by (simp add: status_patch collect_updates_quantity_five item_index_one_widget
          quantity_five_not_empty patched_quantity_five)
  show ?thesis
    using full_record_is_item_after_mutation [OF is_json_one_widget, of no_conv env_second
        "PATCH_inventory ''u1'' quantity_five" "[(env_third, DELETE_inventory ''u1'')]"]
      is_json_one_widget st
    by (auto simp: item_index_one_widget widget_patched_def)
qed

section \<open>The diff of an update\<close>

lemma set_prop_fresh: "k \<notin> fst ` set ob \<Longrightarrow> set_prop ob k v = ob @ [(k, v)]"
  by (induction ob) auto

lemma foldl_set_prop_fresh:
  "distinct ks \<Longrightarrow> set ks \<inter> fst ` set acc = {} \<Longrightarrow>
     foldl (\<lambda>u k. if c k then set_prop u k (g k) else u) acc ks
       = acc @ map (\<lambda>k. (k, g k)) (filter c ks)"
proof (induction ks arbitrary: acc)
  case Nil
  then show ?case by simp
next
  case (Cons k ks)
  show ?case
  proof (cases "c k")
    case True
    have "set ks \<inter> fst ` set (acc @ [(k, g k)]) = {}"
      using Cons.prems by auto
    then show ?thesis using Cons True
      by (simp add: set_prop_fresh)
  next
    case False
    then show ?thesis using Cons by simp
  qed
qed


lemma distinct_allowed: "distinct allowed"
  by (simp add: allowed_def)

lemma collect_updates_eq:
  "collect_updates req_body = map (\<lambda>k. (k, get_prop req_body k)) (filter (has_prop req_body) allowed)"
  using foldl_set_prop_fresh [of allowed "[]" "has_prop req_body" "get_prop req_body"]
  by (simp add: collect_updates_def distinct_allowed)

lemma keys_collect_updates: "map fst (collect_updates req_body) = filter (has_prop req_body) allowed"
  by (simp add: collect_updates_eq comp_def)



lemma get_prop_foldl:
  "get_prop (foldl (\<lambda>x k. set_prop x k (G k)) ex ks) k'
     = (if k' \<in> set ks then G k' else get_prop ex k')"
  by (induction ks arbitrary: ex) (auto simp: get_set_prop)

lemma foldl_Inl:
  "foldl (\<lambda>acc k. case acc of Inl err \<Rightarrow> Inl err | Inr x \<Rightarrow> F x k) (Inl err) ks = Inl err"
  by (induction ks) simp_all

lemma foldl_assign_Inr:
  "foldl (\<lambda>acc k. case acc of Inl err \<Rightarrow> Inl err
                    | Inr x \<Rightarrow> (case c k of Inl err \<Rightarrow> Inl err | Inr v \<Rightarrow> Inr (set_prop x k v)))
      (Inr ex) ks = Inr ex1
   \<longleftrightarrow> (\<forall>k\<in>set ks. \<exists>v. c k = Inr v)
       \<and> ex1 = foldl (\<lambda>x k. set_prop x k (projr (c k))) ex ks"
proof (induction ks arbitrary: ex)
  case Nil
  show ?case by auto
next
  case (Cons a ks)
  show ?case
  proof (cases "c a")
    case (Inl err)
    then show ?thesis by (simp add: foldl_Inl)
  next
    case (Inr v)
    then show ?thesis using Cons.IH [of "set_prop ex a v"] by simp
  qed
qed

lemma assign_updates_Inr:
  "assign_updates conv ups ex = Inr ex1
   \<longleftrightarrow> (\<forall>k\<in>set (map fst ups). \<exists>v. coerce_field conv k (get_prop ups k) = Inr v)
       \<and> ex1 = foldl (\<lambda>x k. set_prop x k (projr (coerce_field conv k (get_prop ups k)))) ex (map fst ups)"
  unfolding assign_updates_def
  by (rule foldl_assign_Inr [of "\<lambda>k. coerce_field conv k (get_prop ups k)"])

lemma patched_Inr:
  "patched conv e uid ups ex = Inr ex'
   \<longleftrightarrow> (\<forall>k\<in>set (map fst ups). \<exists>v. coerce_field conv k (get_prop ups k) = Inr v)
       \<and> ex' = set_prop (set_prop
                 (foldl (\<lambda>x k. set_prop x k (projr (coerce_field conv k (get_prop ups k)))) ex (map fst ups))
                 ''updated_at'' (JStr (iso_updated e))) ''updated_by'' (JStr uid)"
proof (cases "assign_updates conv ups ex")
  case (Inl err)
  then show ?thesis using assign_updates_Inr [of conv ups ex]
    by (auto simp: patched_def)
next
  case (Inr ex1)
  then show ?thesis using assign_updates_Inr [of conv ups ex ex1]
    by (auto simp: patched_def Let_def)
qed


lemma get_prop_patched:
  assumes "patched conv e uid ups ex = Inr ex'"
  shows "get_prop ex' k =
     (if k = ''updated_by'' then JStr uid
      else if k = ''updated_at'' then JStr (iso_updated e)
      else if k \<in> fst ` set ups then projr (coerce_field conv k (get_prop ups k))
      else get_prop ex k)"
  using assms unfolding patched_Inr by (simp add: get_set_prop get_prop_foldl)












text \<open>A quantity too large for a number is assigned as \<^verbatim>\<open>Infinity\<close> and written to the
  file as \<^verbatim>\<open>null\<close>, in the item and in the diff.\<close>

lemma update_diff_overflow:
  "status_of (fst (patch_inventory no_conv env_second ''admin'' ''u1'' quantity_overflow one_widget))
     = Some 200
   \<and> diff (hd (inventory_audit (stored
         (snd (patch_inventory no_conv env_second ''admin'' ''u1'' quantity_overflow one_widget)))))
       = JObj [(''quantity'', JObj [(''after'', JNull)])]
   \<and> get_prop (hd (inventory_items (stored
         (snd (patch_inventory no_conv env_second ''admin'' ''u1'' quantity_overflow one_widget)))))
       ''quantity'' = JNull"
proof -
  have c: "collect_updates quantity_overflow = quantity_overflow"
    by (simp add: collect_updates_def quantity_overflow_def allowed_def has_prop_def)
  have p: "patched no_conv env_second ''admin'' quantity_overflow (inventory_items (stored one_widget) ! 0)
      = Inr [(''item_id'', JStr ''u1''), (''created_at'', JStr ''2024-01-01T00:00:00.000Z''),
             (''updated_at'', JStr ''2024-01-02T00:00:00.000Z''), (''deleted_at'', JNull),
             (''created_by'', JStr ''admin''), (''updated_by'', JStr ''admin''),
             (''sku'', JStr ''A1''), (''product_name'', JStr ''Widget''),
             (''quantity'', JNum PInf)]"
    by (simp add: stored_one_widget patched_def assign_updates_def coerce_field_def
          quantity_overflow_def env_second_def Let_def)
  have n: "quantity_overflow \<noteq> []" by (simp add: quantity_overflow_def)
  show ?thesis
    by (simp add: status_patch stored_patch c n item_index_one_widget p)
       (simp add: stored_one_widget quantity_overflow_def updated_doc_def make_diff_def Let_def
          jsonify_doc_def jsonify_obj_def jsonify_entry_def jsonify_prop_def)
qed

section \<open>Lemmas: what a request leaves of an item\<close>

lemma in_set_prop:
  "(k', v') \<in> set (set_prop ob k v) \<Longrightarrow> (k', v') = (k, v) \<or> (k', v') \<in> set ob"
  by (induction ob) (auto split: if_splits)

lemma json_set_prop:
  assumes "jsonify_obj ob = ob" "v \<noteq> JUndefined" "jsonify v = v"
  shows "jsonify_obj (set_prop ob k v) = set_prop ob k v"
  using assms unfolding json_obj_iff by (auto dest: in_set_prop)

lemma get_prop_jsonify_obj:
  "(\<forall>v. (k, v) \<in> set ob \<longrightarrow> v \<noteq> JUndefined) \<Longrightarrow>
     get_prop (jsonify_obj ob) k = jsonify_prop (get_prop ob k)"
proof (induction ob)
  case Nil
  then show ?case by (simp add: jsonify_obj_def jsonify_prop_def)
next
  case (Cons p ob)
  obtain k' v' where p: "p = (k', v')" by (cases p)
  have IH: "get_prop (jsonify_obj ob) k = jsonify_prop (get_prop ob k)"
    using Cons by auto
  show ?case
  proof (cases "k' = k")
    case True
    with Cons.prems p have "v' \<noteq> JUndefined" by auto
    with True p show ?thesis by (simp add: jsonify_obj_def jsonify_prop_def)
  next
    case False
    with p IH show ?thesis by (simp add: jsonify_obj_def)
  qed
qed

lemma get_prop_in: "get_prop ob k \<noteq> JUndefined \<Longrightarrow> (k, get_prop ob k) \<in> set ob"
  by (induction ob) (auto split: if_splits)

lemma get_prop_json:
  assumes "jsonify_obj ob = ob"
  shows "jsonify_prop (get_prop ob k) = get_prop ob k"
proof (cases "get_prop ob k = JUndefined")
  case True
  then show ?thesis by (simp add: jsonify_prop_def)
next
  case False
  from get_prop_in [OF False] assms show ?thesis
    unfolding json_obj_iff by (auto simp: jsonify_prop_def)
qed

lemma in_foldl_set_prop:
  "(k, v) \<in> set (foldl (\<lambda>x k'. set_prop x k' (G k')) ex ks) \<Longrightarrow> k \<notin> set ks \<Longrightarrow> (k, v) \<in> set ex"
proof (induction ks arbitrary: ex)
  case Nil
  then show ?case by simp
next
  case (Cons a ks)
  then have "(k, v) \<in> set (set_prop ex a (G a))" by simp
  with Cons.prems(2) show ?case by (auto dest: in_set_prop)
qed

lemma in_patched:
  assumes "patched conv e uid ups ex = Inr ex'" "(k, v) \<in> set ex'"
    "k \<notin> fst ` set ups" "k \<noteq> ''updated_at''" "k \<noteq> ''updated_by''"
  shows "(k, v) \<in> set ex"
proof -
  let ?ex1 = "foldl (\<lambda>x k. set_prop x k (projr (coerce_field conv k (get_prop ups k)))) ex (map fst ups)"
  from assms(1) have "ex' = set_prop (set_prop ?ex1 ''updated_at'' (JStr (iso_updated e)))
      ''updated_by'' (JStr uid)"
    unfolding patched_Inr by simp
  with assms(2) have "(k, v) \<in> set ?ex1"
    using assms(4,5) by (auto dest!: in_set_prop)
  then show ?thesis using assms(3)
    by (auto dest: in_foldl_set_prop)
qed

lemma untouched_by_patch:
  assumes "jsonify_obj ex = ex" "k \<notin> set allowed" "k \<noteq> ''updated_at''" "k \<noteq> ''updated_by''"
    and "patched conv e uid (collect_updates req_body) ex = Inr ex'"
  shows "get_prop (jsonify_obj ex') k = get_prop ex k"
proof -
  have nk: "k \<notin> fst ` set (collect_updates req_body)"
    using assms(2) keys_collect_updates [of req_body]
    by (metis filter_is_subset list.set_map subsetD)
  have "\<forall>v. (k, v) \<in> set ex' \<longrightarrow> v \<noteq> JUndefined"
    using in_patched [OF assms(5) _ nk assms(3,4)] assms(1) unfolding json_obj_iff by fastforce
  then have "get_prop (jsonify_obj ex') k = jsonify_prop (get_prop ex' k)"
    by (rule get_prop_jsonify_obj)
  also have "\<dots> = jsonify_prop (get_prop ex k)"
    using nk assms(3,4) by (simp add: get_prop_patched [OF assms(5)])
  also have "\<dots> = get_prop ex k"
    using assms(1) by (rule get_prop_json)
  finally show ?thesis .
qed

lemma get_prop_soft_deleted:
  "get_prop (soft_deleted e uid ex) k =
     (if k = ''updated_by'' then JStr uid
      else if k = ''updated_at'' \<or> k = ''deleted_at'' then JStr (iso_deleted e)
      else get_prop ex k)"
  by (simp add: soft_deleted_def Let_def get_set_prop)

lemma json_soft_deleted:
  assumes "jsonify_obj ex = ex"
  shows "jsonify_obj (soft_deleted e uid ex) = soft_deleted e uid ex"
  using assms by (simp add: soft_deleted_def Let_def json_set_prop get_set_prop)


lemma items_after_post:
  assumes "is_json (stored fs)" "i < length (inventory_items (stored fs))"
  shows "i < length (inventory_items (stored (snd (post_inventory e uid req_body fs))))
       \<and> inventory_items (stored (snd (post_inventory e uid req_body fs))) ! i
           = inventory_items (stored fs) ! i"
proof -
  have "jsonify_obj (inventory_items (stored fs) ! i) = inventory_items (stored fs) ! i"
    using assms by (simp add: is_json_items)
  then show ?thesis using assms(2)
    by (simp add: stored_post jsonify_doc_def created_doc_def nth_append)
qed

lemma items_after_patch:
  assumes "is_json (stored fs)" "i < length (inventory_items (stored fs))"
  shows "i < length (inventory_items (stored (snd (patch_inventory conv e uid iid req_body fs))))
       \<and> inventory_items (stored (snd (patch_inventory conv e uid iid req_body fs))) ! i
           = (if collect_updates req_body \<noteq> [] \<and> item_index (stored fs) iid = Some i
              then (case patched conv e uid (collect_updates req_body) (inventory_items (stored fs) ! i) of
                      Inl err \<Rightarrow> inventory_items (stored fs) ! i
                    | Inr ex' \<Rightarrow> jsonify_obj ex')
              else inventory_items (stored fs) ! i)"
proof -
  have "jsonify_obj (inventory_items (stored fs) ! i) = inventory_items (stored fs) ! i"
    using assms by (simp add: is_json_items)
  then show ?thesis using assms(2)
    by (auto simp: stored_patch jsonify_doc_def updated_doc_def Let_def nth_list_update
        split: option.splits sum.splits)
qed

lemma items_after_delete:
  assumes "is_json (stored fs)" "i < length (inventory_items (stored fs))"
  shows "i < length (inventory_items (stored (snd (delete_inventory e uid iid fs))))
       \<and> inventory_items (stored (snd (delete_inventory e uid iid fs))) ! i
           = (if item_index (stored fs) iid = Some i
              then soft_deleted e uid (inventory_items (stored fs) ! i)
              else inventory_items (stored fs) ! i)"
proof -
  have "jsonify_obj (inventory_items (stored fs) ! i) = inventory_items (stored fs) ! i"
    using assms by (simp add: is_json_items)
  then show ?thesis using assms(2)
    by (auto simp: stored_delete jsonify_doc_def deleted_doc_def Let_def nth_list_update
        json_soft_deleted split: option.splits)
qed


lemma deleted_at_handle:
  assumes "is_json (stored fs)" "i < length (inventory_items (stored fs))"
  shows "i < length (inventory_items (stored (snd (handle conv e rq fs))))
       \<and> (get_prop (inventory_items (stored (snd (handle conv e rq fs))) ! i) ''deleted_at''
            = get_prop (inventory_items (stored fs) ! i) ''deleted_at''
          \<or> get_prop (inventory_items (stored (snd (handle conv e rq fs))) ! i) ''deleted_at''
            = JStr (iso_deleted e))"
proof -
  have j: "jsonify_obj (inventory_items (stored fs) ! i) = inventory_items (stored fs) ! i"
    using assms by (simp add: is_json_items)
  have na: "''deleted_at'' \<notin> set allowed" by (simp add: allowed_def)
  show ?thesis
  proof (cases rq)
    case (POST_inventory req_body)
    then show ?thesis using items_after_post [OF assms] by simp
  next
    case (PATCH_inventory iid req_body)
    then show ?thesis using items_after_patch [OF assms, of conv e "''admin''" iid req_body]
      by (auto simp: untouched_by_patch [OF j na] split: sum.splits)
  next
    case (DELETE_inventory iid)
    then show ?thesis using items_after_delete [OF assms, of e "''admin''" iid]
      by (simp add: get_prop_soft_deleted)
  qed
qed

lemma deleted_at_run:
  assumes "is_json (stored fs)" "i < length (inventory_items (stored fs))"
  shows "i < length (inventory_items (stored (run conv rqs fs)))
       \<and> (get_prop (inventory_items (stored (run conv rqs fs)) ! i) ''deleted_at''
            = get_prop (inventory_items (stored fs) ! i) ''deleted_at''
          \<or> (\<exists>a\<in>set rqs. get_prop (inventory_items (stored (run conv rqs fs)) ! i) ''deleted_at''
            = JStr (iso_deleted (fst a))))"
  using assms
proof (induction rqs arbitrary: fs)
  case Nil
  then show ?case by simp
next
  case (Cons a rqs)
  obtain e rq where a: "a = (e, rq)" by (cases a)
  let ?fs1 = "snd (handle conv e rq fs)"
  have j1: "is_json (stored ?fs1)" using Cons.prems(1) by (rule is_json_handle)
  from deleted_at_handle [OF Cons.prems, of conv e rq]
  have i1: "i < length (inventory_items (stored ?fs1))"
    and d1: "get_prop (inventory_items (stored ?fs1) ! i) ''deleted_at''
            = get_prop (inventory_items (stored fs) ! i) ''deleted_at''
          \<or> get_prop (inventory_items (stored ?fs1) ! i) ''deleted_at'' = JStr (iso_deleted e)"
    by auto
  from Cons.IH [OF j1 i1] d1 a show ?case by auto
qed

lemma items_widget_deleted:
  "inventory_items (stored widget_deleted) =
       [[(''item_id'', JStr ''u1''), (''created_at'', JStr ''2024-01-01T00:00:00.000Z''),
         (''updated_at'', JStr ''2024-01-02T00:00:00.000Z''),
         (''deleted_at'', JStr ''2024-01-02T00:00:00.000Z''),
         (''created_by'', JStr ''admin''), (''updated_by'', JStr ''admin''),
         (''sku'', JStr ''A1''), (''product_name'', JStr ''Widget'')]]"
  by (simp add: widget_deleted_def stored_delete item_index_one_widget)
     (simp add: stored_one_widget deleted_doc_def Let_def soft_deleted_def env_second_def
        jsonify_doc_def jsonify_obj_def)

lemma is_json_widget_deleted: "is_json (stored widget_deleted)"
  unfolding widget_deleted_def using is_json_one_widget by (rule is_json_handle)

lemma item_index_widget_deleted: "item_index (stored widget_deleted) ''u1'' = Some 0"
  by (simp add: item_index_def items_widget_deleted)

section \<open>Soft delete\<close>

text \<open>
  Claim C7. An item is identified by its position in \<^verbatim>\<open>inventory_items\<close>, which no request
  changes. Whatever requests follow, the item stays, and its \<^verbatim>\<open>deleted_at\<close> is either what
  it was or a timestamp written by a \<^verbatim>\<open>DELETE\<close>: a \<^verbatim>\<open>deleted_at\<close> that is not \<^verbatim>\<open>null\<close>
  never becomes \<^verbatim>\<open>null\<close> again, one that is present never goes missing, and one that is
  truthy (the test of the server for a deleted item) stays truthy, the timestamps
  being non-empty strings. \<^verbatim>\<open>DELETE\<close> of an item that is found answers 200 and sets
  \<^verbatim>\<open>deleted_at\<close> to the new timestamp, whether or not the item was deleted before.
\<close>

theorem deleted_is_terminal:
  assumes "is_json (stored fs)" "i < length (inventory_items (stored fs))"
  shows "i < length (inventory_items (stored (run conv rqs fs)))
       \<and> (get_prop (inventory_items (stored fs) ! i) ''deleted_at'' \<noteq> JNull \<longrightarrow>
            get_prop (inventory_items (stored (run conv rqs fs)) ! i) ''deleted_at'' \<noteq> JNull)
       \<and> (get_prop (inventory_items (stored fs) ! i) ''deleted_at'' \<noteq> JUndefined \<longrightarrow>
            get_prop (inventory_items (stored (run conv rqs fs)) ! i) ''deleted_at'' \<noteq> JUndefined)
       \<and> (truthy (get_prop (inventory_items (stored fs) ! i) ''deleted_at'') \<longrightarrow>
            (\<forall>a\<in>set rqs. iso_deleted (fst a) \<noteq> []) \<longrightarrow>
            truthy (get_prop (inventory_items (stored (run conv rqs fs)) ! i) ''deleted_at''))
       \<and> (item_index (stored fs) iid = Some i \<longrightarrow>
            status_of (fst (handle conv e (DELETE_inventory iid) fs)) = Some 200
            \<and> get_prop (inventory_items (stored (snd (handle conv e (DELETE_inventory iid) fs))) ! i)
                 ''deleted_at'' = JStr (iso_deleted e))"
proof -
  from deleted_at_run [OF assms, of conv rqs]
  have len: "i < length (inventory_items (stored (run conv rqs fs)))"
    and d: "get_prop (inventory_items (stored (run conv rqs fs)) ! i) ''deleted_at''
              = get_prop (inventory_items (stored fs) ! i) ''deleted_at''
          \<or> (\<exists>a\<in>set rqs. get_prop (inventory_items (stored (run conv rqs fs)) ! i) ''deleted_at''
              = JStr (iso_deleted (fst a)))"
    by auto
  have del: "status_of (fst (handle conv e (DELETE_inventory iid) fs)) = Some 200
            \<and> get_prop (inventory_items (stored (snd (handle conv e (DELETE_inventory iid) fs))) ! i)
                 ''deleted_at'' = JStr (iso_deleted e)"
    if "item_index (stored fs) iid = Some i"
    using that items_after_delete [OF assms, of e "''admin''" iid]
    by (simp add: status_delete get_prop_soft_deleted)
  show ?thesis using len d del by auto
qed

theorem deleted_is_terminal_witness:
  "is_json (stored widget_deleted)
   \<and> length (inventory_items (stored widget_deleted)) = 1
   \<and> get_prop (inventory_items (stored widget_deleted) ! 0) ''deleted_at''
       = JStr ''2024-01-02T00:00:00.000Z''
   \<and> get_prop (inventory_items (stored (run no_conv
         [(env_third, PATCH_inventory ''u1'' quantity_five), (env_third, POST_inventory widget)]
         widget_deleted)) ! 0) ''deleted_at'' \<noteq> JNull
   \<and> truthy (get_prop (inventory_items (stored (run no_conv
         [(env_third, PATCH_inventory ''u1'' quantity_five), (env_third, POST_inventory widget)]
         widget_deleted)) ! 0) ''deleted_at'')
   \<and> item_index (stored widget_deleted) ''u1'' = Some 0
   \<and> status_of (fst (handle no_conv env_third (DELETE_inventory ''u1'') widget_deleted)) = Some 200
   \<and> get_prop (inventory_items (stored (snd (handle no_conv env_third (DELETE_inventory ''u1'')
         widget_deleted))) ! 0) ''deleted_at'' = JStr ''2024-01-03T00:00:00.000Z''"
proof -
  have l: "0 < length (inventory_items (stored widget_deleted))"
    by (simp add: items_widget_deleted)
  have ts: "\<forall>a\<in>set [(env_third, PATCH_inventory ''u1'' quantity_five), (env_third, POST_inventory widget)].
              iso_deleted (fst a) \<noteq> []"
    by (simp add: env_third_def)
  show ?thesis
    using deleted_is_terminal [OF is_json_widget_deleted l, of no_conv
        "[(env_third, PATCH_inventory ''u1'' quantity_five), (env_third, POST_inventory widget)]"
        "''u1''" env_third]
      is_json_widget_deleted ts item_index_widget_deleted
    by (simp add: items_widget_deleted env_third_def)
qed

section \<open>Duplicate SKU\<close>




















text \<open>
  A \<^verbatim>\<open>sku\<close> too large for a number is \<^verbatim>\<open>Infinity\<close> in the request and \<^verbatim>\<open>null\<close> in the
  file: two such requests both answer 201 and leave two active items with the \<^verbatim>\<open>sku\<close>
  \<^verbatim>\<open>null\<close>.
\<close>

lemma sku_overflow_twice:
  "status_of (fst (handle no_conv env_first (POST_inventory sku_overflow) no_files)) = Some 201
   \<and> status_of (fst (handle no_conv env_second (POST_inventory sku_overflow)
         (snd (handle no_conv env_first (POST_inventory sku_overflow) no_files)))) = Some 201
   \<and> map (\<lambda>x. (get_prop x ''sku'', get_prop x ''deleted_at''))
         (inventory_items (stored (snd (handle no_conv env_second (POST_inventory sku_overflow)
            (snd (handle no_conv env_first (POST_inventory sku_overflow) no_files))))))
       = [(JNull, JNull), (JNull, JNull)]
   \<and> \<not> unique_active_skus (stored (snd (handle no_conv env_second (POST_inventory sku_overflow)
            (snd (handle no_conv env_first (POST_inventory sku_overflow) no_files)))))"
proof -
  let ?fs1 = "snd (post_inventory env_first ''admin'' sku_overflow no_files)"
  let ?fs2 = "snd (post_inventory env_second ''admin'' sku_overflow ?fs1)"
  have v: "truthy (get_prop sku_overflow ''sku'')" "truthy (get_prop sku_overflow ''product_name'')"
    "get_prop sku_overflow ''sku'' = JNum PInf"
    by (simp_all add: sku_overflow_def)
  have r: "get_prop (jsonify_obj (new_record e ''admin'' sku_overflow)) ''sku'' = JNull"
    "get_prop (jsonify_obj (new_record e ''admin'' sku_overflow)) ''deleted_at'' = JNull" for e
    by (simp_all add: new_record_def Object_assign_def sku_overflow_def jsonify_obj_def)
  have nd0: "\<not> duplicate_sku empty_db (JNum PInf)"
    by (simp add: duplicate_sku_def empty_db_def)
  have 1: "stored ?fs1 = jsonify_doc (created_doc env_first ''admin'' sku_overflow empty_db)"
    using v nd0 by (simp add: stored_post stored_no_files)
  have i1: "inventory_items (stored ?fs1) = [jsonify_obj (new_record env_first ''admin'' sku_overflow)]"
    unfolding 1 by (simp add: created_doc_def jsonify_doc_def empty_db_def)
  have nd1: "\<not> duplicate_sku (stored ?fs1) (JNum PInf)"
    by (simp add: duplicate_sku_def i1 r)
  have 2: "stored ?fs2 = jsonify_doc (created_doc env_second ''admin'' sku_overflow (stored ?fs1))"
    using v nd1 by (simp add: stored_post)
  have i2: "inventory_items (stored ?fs2)
      = [jsonify_obj (new_record env_first ''admin'' sku_overflow),
         jsonify_obj (new_record env_second ''admin'' sku_overflow)]"
    unfolding 2 by (simp add: created_doc_def jsonify_doc_def i1 jsonify_obj_idem)
  have u: "\<not> unique_active_skus (stored ?fs2)"
  proof
    assume "unique_active_skus (stored ?fs2)"
    from this [unfolded unique_active_skus_def i2, rule_format, of 0 1]
    show False by (simp add: r active_def)
  qed
  show ?thesis
    unfolding handle.simps i2
    using v nd0 nd1 u [unfolded i2]
    by (simp add: status_post stored_no_files r)
qed

section \<open>The fields of a new item\<close>

text \<open>
  Claim C3 does not hold of the code: \<^verbatim>\<open>Object.assign\<close> copies the request body over the
  six fields the server has just set, so a body that names \<^verbatim>\<open>item_id\<close>, \<^verbatim>\<open>created_at\<close>,
  \<^verbatim>\<open>deleted_at\<close> or \<^verbatim>\<open>created_by\<close> decides them. The item below is stored and returned with
  the identifier \<^verbatim>\<open>X\<close> instead of the generated \<^verbatim>\<open>u1\<close>, created in 1999 by \<^verbatim>\<open>mallory\<close>, and
  already deleted, while its audit entry is filed under the generated identifier \<^verbatim>\<open>u1\<close>,
  which no item has.
\<close>

theorem create_lets_body_override_fields:
  "fst (post_inventory env_first ''admin'' forged no_files) =
     Inr (Response 201
       (JObj [(''item_id'', JStr ''X''), (''created_at'', JStr ''1999-12-31T00:00:00.000Z''),
              (''updated_at'', JStr ''2024-01-01T00:00:00.000Z''),
              (''deleted_at'', JStr ''2020-01-01T00:00:00.000Z''),
              (''created_by'', JStr ''mallory''), (''updated_by'', JStr ''admin''),
              (''sku'', JStr ''A1''), (''product_name'', JStr ''Widget'')]))
   \<and> inventory_items (stored (snd (post_inventory env_first ''admin'' forged no_files))) =
       [[(''item_id'', JStr ''X''), (''created_at'', JStr ''1999-12-31T00:00:00.000Z''),
         (''updated_at'', JStr ''2024-01-01T00:00:00.000Z''),
         (''deleted_at'', JStr ''2020-01-01T00:00:00.000Z''),
         (''created_by'', JStr ''mallory''), (''updated_by'', JStr ''admin''),
         (''sku'', JStr ''A1''), (''product_name'', JStr ''Widget'')]]
   \<and> uuid_item env_first = ''u1''
   \<and> item_id (hd (inventory_audit (stored (snd (post_inventory env_first ''admin'' forged no_files)))))
       = JStr ''u1''"
proof -
  have r: "new_record env_first ''admin'' forged =
       [(''item_id'', JStr ''X''), (''created_at'', JStr ''1999-12-31T00:00:00.000Z''),
         (''updated_at'', JStr ''2024-01-01T00:00:00.000Z''),
         (''deleted_at'', JStr ''2020-01-01T00:00:00.000Z''),
         (''created_by'', JStr ''mallory''), (''updated_by'', JStr ''admin''),
         (''sku'', JStr ''A1''), (''product_name'', JStr ''Widget'')]"
    by (simp add: new_record_def Object_assign_def forged_def env_first_def)
  have v: "truthy (get_prop forged ''sku'')" "truthy (get_prop forged ''product_name'')"
    by (simp_all add: forged_def)
  have nd: "\<not> duplicate_sku empty_db (get_prop forged ''sku'')"
    by (simp add: duplicate_sku_def empty_db_def)
  have 1: "fst (post_inventory env_first ''admin'' forged no_files) =
     Inr (Response 201 (JObj (new_record env_first ''admin'' forged)))"
    using v nd
    by (simp add: post_inventory_def Let_def respond_returning create_fn_parse send_def
          stored_no_files)
       (simp add: r empty_db_def)
  have 2: "stored (snd (post_inventory env_first ''admin'' forged no_files))
        = jsonify_doc (created_doc env_first ''admin'' forged empty_db)"
    using v nd by (simp add: stored_post stored_no_files)
  show ?thesis
    unfolding 1 2
    by (simp add: r created_doc_def jsonify_doc_def jsonify_obj_def jsonify_entry_def
        jsonify_prop_def empty_db_def)
       (simp add: env_first_def)
qed

text \<open>
  The request passes the validation of \<^verbatim>\<open>sku\<close> and \<^verbatim>\<open>product_name\<close>; the stored item does
  not carry the generated identifier, and the server's own test finds it deleted.
\<close>

theorem create_lets_body_override_fields_witness:
  "truthy (get_prop forged ''sku'')
   \<and> truthy (get_prop forged ''product_name'')
   \<and> get_prop (hd (inventory_items (stored (snd (post_inventory env_first ''admin'' forged no_files)))))
        ''item_id'' \<noteq> JStr (uuid_item env_first)
   \<and> truthy (get_prop (hd (inventory_items
         (stored (snd (post_inventory env_first ''admin'' forged no_files))))) ''deleted_at'')"
  using create_lets_body_override_fields
  by (simp add: forged_def)

end
